theory Spec2Isabelle
  imports Complex_Main "HOL-Library.Multiset"
begin

section \<open>Data model (types.ts)\<close>

text \<open>
  JavaScript numbers are modelled as exact reals: rounding, NaN and the infinities of
  IEEE doubles are outside the model. An optional field (\<open>number | null | undefined\<close>)
  is an \<open>option\<close>, with \<open>None\<close> standing for both \<open>null\<close> and \<open>undefined\<close>.
\<close>

datatype OptionType = Call | Put

datatype Status = Active | Closed

record OptionLeg =
  legId :: string
  optionType :: OptionType
  strike :: real
  expiryDate :: string
  quantity :: real
  tradePrice :: real
  openingDate :: string
  closingPrice :: "real option"
  closingDate :: "string option"
  impliedVolatility :: real
  openingCommission :: "real option"
  closingCommission :: "real option"
  enabled :: "bool option"
  currentPrice :: "real option"
  currentIv :: "real option"

record MarketData =
  daxSpot :: real
  daxVolatility :: real
  riskFreeRate :: real

record Structure =
  structId :: "string option"
  tag :: string
  legs :: "OptionLeg list"
  status :: Status
  multiplier :: real
  structClosingDate :: "string option"
  realizedPnl :: "real option"

record CalculatedGreeks =
  delta :: real
  gamma :: real
  theta :: real
  vega :: real

section \<open>The pricing kernel and the clock, taken as parameters\<close>

text \<open>
  The class \<open>BlackScholes\<close> and the helpers \<open>getTimeToExpiry\<close> and \<open>getYearFraction\<close>
  live in \<open>services/blackScholes\<close>, which is imported by the sources but is not among
  them. They are parameters of every definition below. A kernel object is built from the
  five constructor arguments (spot, strike, time to expiry, rate, volatility); the four
  methods read them. Each definition that can construct a kernel object also returns the
  list of constructor arguments it used, in order, so that "the kernel is not contacted"
  is the statement that this list is empty. The clock is read once per evaluation:
  \<open>getTimeToExpiry\<close>, \<open>nowISO\<close> and \<open>nowMs\<close> do not change while a memo is computed.
  \<open>getTime\<close> is \<open>new Date(s).getTime()\<close> and \<open>toISOString\<close> its inverse on timestamps;
  a date string that does not parse (NaN) is outside the model. \<open>baseRoundoff\<close> is the
  rounding error of the payoff chart's base points (see there).
\<close>

type_synonym BSArgs = "real \<times> real \<times> real \<times> real \<times> real"

record Kernel =
  callPrice :: "BSArgs \<Rightarrow> real"
  putPrice :: "BSArgs \<Rightarrow> real"
  callGreeks :: "BSArgs \<Rightarrow> CalculatedGreeks"
  putGreeks :: "BSArgs \<Rightarrow> CalculatedGreeks"

record Env =
  getTimeToExpiry :: "string \<Rightarrow> real"
  getYearFraction :: "string \<Rightarrow> string \<Rightarrow> real"
  getTime :: "string \<Rightarrow> int"
  toISOString :: "int \<Rightarrow> string"
  nowISO :: string
  nowMs :: int
  baseRoundoff :: "nat \<Rightarrow> real"

definition bsPrice :: "Kernel \<Rightarrow> OptionType \<Rightarrow> BSArgs \<Rightarrow> real" where
  \<comment> \<open>\<open>leg.optionType === 'Call' ? bs.callPrice() : bs.putPrice()\<close>\<close>
  "bsPrice K ty a = (case ty of Call \<Rightarrow> callPrice K a | Put \<Rightarrow> putPrice K a)"

definition bsGreeks :: "Kernel \<Rightarrow> OptionType \<Rightarrow> BSArgs \<Rightarrow> CalculatedGreeks" where
  \<comment> \<open>\<open>leg.optionType === 'Call' ? bs.callGreeks() : bs.putGreeks()\<close>\<close>
  "bsGreeks K ty a = (case ty of Call \<Rightarrow> callGreeks K a | Put \<Rightarrow> putGreeks K a)"

definition intrinsic :: "OptionType \<Rightarrow> real \<Rightarrow> real \<Rightarrow> real" where
  \<comment> \<open>\<open>optionType === 'Call' ? Math.max(0, spot - strike) : Math.max(0, strike - spot)\<close>\<close>
  "intrinsic ty spot k = (case ty of Call \<Rightarrow> max 0 (spot - k) | Put \<Rightarrow> max 0 (k - spot))"

definition isLegClosed :: "OptionLeg \<Rightarrow> bool" where
  \<comment> \<open>\<open>closingPrice !== null && closingPrice !== undefined && Number(closingPrice) !== 0\<close>\<close>
  "isLegClosed leg = (case closingPrice leg of None \<Rightarrow> False | Some p \<Rightarrow> p \<noteq> 0)"

definition isDisabled :: "OptionLeg \<Rightarrow> bool" where
  \<comment> \<open>\<open>leg.enabled === false\<close>: a missing flag counts as enabled\<close>
  "isDisabled leg = (enabled leg = Some False)"

definition orZero :: "real option \<Rightarrow> real" where
  \<comment> \<open>\<open>x || 0\<close> on an optional number\<close>
  "orZero x = (case x of None \<Rightarrow> 0 | Some v \<Rightarrow> v)"

section \<open>List view: calculatePnlInfoForStructure\<close>

definition listArgs :: "Env \<Rightarrow> MarketData \<Rightarrow> OptionLeg \<Rightarrow> BSArgs" where
  \<comment> \<open>\<open>new BlackScholes(marketData.daxSpot, leg.strike, timeToExpiry, marketData.riskFreeRate,
      leg.impliedVolatility)\<close> with \<open>timeToExpiry = getTimeToExpiry(leg.expiryDate)\<close>\<close>
  "listArgs env md leg =
     (daxSpot md, strike leg, getTimeToExpiry env (expiryDate leg), riskFreeRate md,
      impliedVolatility leg)"

definition openLegPrice ::
  "Kernel \<Rightarrow> Env \<Rightarrow> MarketData \<Rightarrow> OptionLeg \<Rightarrow> real \<times> BSArgs list" where
  \<comment> \<open>the \<open>else\<close> branch of \<open>if (isLegClosed)\<close>\<close>
  "openLegPrice K env md leg =
     (let timeToExpiry = getTimeToExpiry env (expiryDate leg) in
      if timeToExpiry > 0
      then (bsPrice K (optionType leg) (listArgs env md leg), [listArgs env md leg])
      else (intrinsic (optionType leg) (daxSpot md) (strike leg), []))"

definition listLegPrice ::
  "Kernel \<Rightarrow> Env \<Rightarrow> MarketData \<Rightarrow> OptionLeg \<Rightarrow> real \<times> BSArgs list" where
  \<comment> \<open>the \<open>currentPrice\<close> of one leg, with the kernel objects constructed for it\<close>
  "listLegPrice K env md leg =
     (case closingPrice leg of
        Some p \<Rightarrow> if p \<noteq> 0 then (p, []) else openLegPrice K env md leg
      | None \<Rightarrow> openLegPrice K env md leg)"

definition legPnlPoints :: "real \<Rightarrow> OptionLeg \<Rightarrow> real" where
  \<comment> \<open>\<open>priceDiff = currentPrice - leg.tradePrice; pnlPoints = priceDiff * leg.quantity\<close>\<close>
  "legPnlPoints cur leg = (cur - tradePrice leg) * quantity leg"

definition legCommissions :: "OptionLeg \<Rightarrow> real" where
  "legCommissions leg =
     (orZero (openingCommission leg) + orZero (closingCommission leg)) * \<bar>quantity leg\<bar>"

definition legNetPnl :: "real \<Rightarrow> real \<Rightarrow> OptionLeg \<Rightarrow> real" where
  \<comment> \<open>\<open>grossPnl = pnlPoints * multiplier; netPnl = grossPnl - commissions\<close>\<close>
  "legNetPnl m cur leg = legPnlPoints cur leg * m - legCommissions leg"

record PnlInfo =
  netPnl :: real
  totalPoints :: real

definition pnlStep ::
  "Kernel \<Rightarrow> Env \<Rightarrow> Structure \<Rightarrow> MarketData \<Rightarrow> PnlInfo \<times> BSArgs list \<Rightarrow> OptionLeg
   \<Rightarrow> PnlInfo \<times> BSArgs list" where
  \<comment> \<open>the body of the \<open>reduce\<close> callback; the second component logs kernel constructions\<close>
  "pnlStep K env s md acc leg =
     (if isDisabled leg then acc
      else (let (cur, calls) = listLegPrice K env md leg in
            (\<lparr> netPnl = netPnl (fst acc) + legNetPnl (multiplier s) cur leg,
               totalPoints = totalPoints (fst acc) + legPnlPoints cur leg \<rparr>,
             snd acc @ calls)))"

definition pnlCalculated ::
  "Kernel \<Rightarrow> Env \<Rightarrow> Structure \<Rightarrow> MarketData \<Rightarrow> PnlInfo \<times> BSArgs list" where
  "pnlCalculated K env s md =
     foldl (pnlStep K env s md) (\<lparr> netPnl = 0, totalPoints = 0 \<rparr>, []) (legs s)"

definition calculatePnlInfoForStructure ::
  "Kernel \<Rightarrow> Env \<Rightarrow> Structure \<Rightarrow> MarketData \<Rightarrow> PnlInfo" where
  "calculatePnlInfoForStructure K env s md =
     (let calculated = fst (pnlCalculated K env s md) in
      case realizedPnl s of
        Some r \<Rightarrow> if status s \<noteq> Active
                  then \<lparr> netPnl = r, totalPoints = totalPoints calculated \<rparr>
                  else calculated
      | None \<Rightarrow> calculated)"

section \<open>List view: calculateTotalGreeks and the portfolio totals\<close>

definition greeksStep ::
  "Kernel \<Rightarrow> Env \<Rightarrow> MarketData \<Rightarrow> CalculatedGreeks \<Rightarrow> OptionLeg \<Rightarrow> CalculatedGreeks" where
  "greeksStep K env md acc leg =
     (if isDisabled leg then acc
      else if isLegClosed leg then acc
      else (let greeks = bsGreeks K (optionType leg) (listArgs env md leg)
            in \<lparr> delta = delta acc + delta greeks * quantity leg,
                 gamma = gamma acc + gamma greeks * quantity leg,
                 theta = theta acc + theta greeks * quantity leg,
                 vega = vega acc + vega greeks * quantity leg \<rparr>))"

definition initialGreeks :: CalculatedGreeks where
  "initialGreeks = \<lparr> delta = 0, gamma = 0, theta = 0, vega = 0 \<rparr>"

definition calculateTotalGreeks ::
  "Kernel \<Rightarrow> Env \<Rightarrow> Structure \<Rightarrow> MarketData \<Rightarrow> CalculatedGreeks" where
  "calculateTotalGreeks K env s md =
     (if legs s = [] then initialGreeks
      else foldl (greeksStep K env md) initialGreeks (legs s))"

record PortfolioGreeks =
  p_delta :: real
  p_gamma :: real
  p_theta :: real
  p_vega :: real
  p_thetaPoints :: real
  p_vegaPoints :: real

definition portfolioStep ::
  "Kernel \<Rightarrow> Env \<Rightarrow> MarketData \<Rightarrow> PortfolioGreeks \<Rightarrow> Structure \<Rightarrow> PortfolioGreeks" where
  "portfolioStep K env md acc s =
     (let structureGreeks = calculateTotalGreeks K env s md in
      \<lparr> p_delta = p_delta acc + delta structureGreeks,
        p_gamma = p_gamma acc + gamma structureGreeks,
        p_theta = p_theta acc + theta structureGreeks * multiplier s,
        p_vega = p_vega acc + vega structureGreeks * multiplier s,
        p_thetaPoints = p_thetaPoints acc + theta structureGreeks,
        p_vegaPoints = p_vegaPoints acc + vega structureGreeks \<rparr>)"

definition totalPortfolioGreeks ::
  "Kernel \<Rightarrow> Env \<Rightarrow> MarketData \<Rightarrow> Structure list \<Rightarrow> PortfolioGreeks" where
  \<comment> \<open>the argument is \<open>activeStructures\<close>\<close>
  "totalPortfolioGreeks K env md activeStructures =
     foldl (portfolioStep K env md)
       \<lparr> p_delta = 0, p_gamma = 0, p_theta = 0, p_vega = 0,
         p_thetaPoints = 0, p_vegaPoints = 0 \<rparr> activeStructures"

section \<open>Detail view: the analysis memo of StructureDetailView\<close>

record LegAnalysis =
  a_id :: string
  a_fairValue :: real
  a_currentPrice :: real
  a_pnlPoints :: real
  a_grossPnl :: real
  a_commissions :: real
  a_netPnl :: real
  a_isClosed :: bool
  a_delta :: real
  a_gamma :: real
  a_theta :: real
  a_vega :: real
  a_thetaPoints :: real
  a_vegaPoints :: real
  a_volatilityUsed :: real

record Totals =
  t_pnl :: real
  t_pnlPoints :: real
  t_gross :: real
  t_comm :: real
  t_delta :: real
  t_gamma :: real
  t_theta :: real
  t_vega :: real
  t_thetaPoints :: real
  t_vegaPoints :: real

text \<open>
  The inputs of the memo: the edited copy \<open>localStructure\<close>, the store's \<open>structures\<close>
  and \<open>marketData\<close>, and the component state \<open>simulatedSpot\<close> and \<open>isLiveMode\<close>.
  The memo's \<open>legAnalysis\<close> and \<open>totals\<close> are modelled; its four realized and unrealized
  sums, which filter \<open>legAnalysis\<close> once more, are not.
\<close>

record DetailState =
  localStructure :: Structure
  structures :: "Structure list"
  marketData :: MarketData
  simulatedSpot :: real
  isLiveMode :: bool

definition storeLegOf :: "DetailState \<Rightarrow> OptionLeg \<Rightarrow> OptionLeg option" where
  \<comment> \<open>\<open>structures.find(s => s.id === localStructure.id)?.legs.find(l => l.id === leg.id)\<close>\<close>
  "storeLegOf st leg =
     (case find (\<lambda>s. structId s = structId (localStructure st)) (structures st) of
        None \<Rightarrow> None
      | Some storeStructure \<Rightarrow> find (\<lambda>l. legId l = legId leg) (legs storeStructure))"

definition volatilityToUse :: "DetailState \<Rightarrow> OptionLeg \<Rightarrow> real" where
  \<comment> \<open>\<open>isLiveMode && storeLeg?.currentIv ? storeLeg.currentIv : leg.impliedVolatility\<close>\<close>
  "volatilityToUse st leg =
     (if isLiveMode st then
        (case storeLegOf st leg of
           None \<Rightarrow> impliedVolatility leg
         | Some storeLeg \<Rightarrow>
             (case currentIv storeLeg of
                None \<Rightarrow> impliedVolatility leg
              | Some v \<Rightarrow> if v \<noteq> 0 then v else impliedVolatility leg))
      else impliedVolatility leg)"

definition detailArgs :: "Env \<Rightarrow> DetailState \<Rightarrow> OptionLeg \<Rightarrow> BSArgs" where
  "detailArgs env st leg =
     (simulatedSpot st, strike leg, getTimeToExpiry env (expiryDate leg),
      riskFreeRate (marketData st), volatilityToUse st leg)"

definition legAnalysisOf ::
  "Kernel \<Rightarrow> Env \<Rightarrow> DetailState \<Rightarrow> OptionLeg \<Rightarrow> LegAnalysis \<times> BSArgs list" where
  \<comment> \<open>the callback of \<open>localStructure.legs.map\<close>, with the kernel objects it constructs\<close>
  "legAnalysisOf K env st leg =
     (let a = detailArgs env st leg;
          fairValue = bsPrice K (optionType leg) a;
          greeks = bsGreeks K (optionType leg) a;
          cur = (case closingPrice leg of
                   None \<Rightarrow> fairValue
                 | Some p \<Rightarrow> if p \<noteq> 0 then p else fairValue);
          pnlPoints = (cur - tradePrice leg) * quantity leg;
          grossPnl = pnlPoints * multiplier (localStructure st);
          commissions = (orZero (openingCommission leg) + orZero (closingCommission leg))
                          * \<bar>quantity leg\<bar>;
          thetaPoints = theta greeks * quantity leg;
          vegaPoints = vega greeks * quantity leg
      in (\<lparr> a_id = legId leg,
            a_fairValue = fairValue,
            a_currentPrice = cur,
            a_pnlPoints = pnlPoints,
            a_grossPnl = grossPnl,
            a_commissions = commissions,
            a_netPnl = grossPnl - commissions,
            a_isClosed = isLegClosed leg,
            a_delta = delta greeks * quantity leg * 100,
            a_gamma = gamma greeks * quantity leg,
            a_theta = thetaPoints * multiplier (localStructure st),
            a_vega = vegaPoints * multiplier (localStructure st),
            a_thetaPoints = thetaPoints,
            a_vegaPoints = vegaPoints,
            a_volatilityUsed = volatilityToUse st leg \<rparr>, [a]))"

definition legAnalysis :: "Kernel \<Rightarrow> Env \<Rightarrow> DetailState \<Rightarrow> LegAnalysis list" where
  "legAnalysis K env st = map (\<lambda>leg. fst (legAnalysisOf K env st leg)) (legs (localStructure st))"

definition skippedInTotals :: "DetailState \<Rightarrow> LegAnalysis \<Rightarrow> bool" where
  \<comment> \<open>\<open>localStructure.legs.find(l => l.id === an.id)?.enabled === false\<close>\<close>
  "skippedInTotals st an =
     (case find (\<lambda>l. legId l = a_id an) (legs (localStructure st)) of
        None \<Rightarrow> False
      | Some leg \<Rightarrow> isDisabled leg)"

definition totalsStep :: "DetailState \<Rightarrow> Totals \<Rightarrow> LegAnalysis \<Rightarrow> Totals" where
  "totalsStep st acc an =
     (if skippedInTotals st an then acc
      else (let acc1 = acc \<lparr> t_pnl := t_pnl acc + a_netPnl an,
                             t_pnlPoints := t_pnlPoints acc + a_pnlPoints an,
                             t_gross := t_gross acc + a_grossPnl an,
                             t_comm := t_comm acc + a_commissions an \<rparr>
            in if \<not> a_isClosed an
               then acc1 \<lparr> t_delta := t_delta acc1 + a_delta an,
                           t_gamma := t_gamma acc1 + a_gamma an,
                           t_theta := t_theta acc1 + a_theta an,
                           t_vega := t_vega acc1 + a_vega an,
                           t_thetaPoints := t_thetaPoints acc1 + a_thetaPoints an,
                           t_vegaPoints := t_vegaPoints acc1 + a_vegaPoints an \<rparr>
               else acc1))"

definition zeroTotals :: Totals where
  "zeroTotals = \<lparr> t_pnl = 0, t_pnlPoints = 0, t_gross = 0, t_comm = 0, t_delta = 0,
                  t_gamma = 0, t_theta = 0, t_vega = 0, t_thetaPoints = 0, t_vegaPoints = 0 \<rparr>"

definition totals :: "Kernel \<Rightarrow> Env \<Rightarrow> DetailState \<Rightarrow> Totals" where
  "totals K env st = foldl (totalsStep st) zeroTotals (legAnalysis K env st)"

section \<open>Live refresh: the state update of refreshDaxSpot\<close>

definition truthyStr :: "string option \<Rightarrow> bool" where
  \<comment> \<open>truthiness of an optional string: \<open>null\<close>, \<open>undefined\<close> and the empty string are falsy\<close>
  "truthyStr d = (case d of None \<Rightarrow> False | Some t \<Rightarrow> t \<noteq> [])"

definition refreshLeg ::
  "Kernel \<Rightarrow> Env \<Rightarrow> real \<Rightarrow> real \<Rightarrow> real \<Rightarrow> OptionLeg \<Rightarrow> OptionLeg \<times> BSArgs list" where
  \<comment> \<open>arguments: fetched \<open>daxSpot\<close> and \<open>daxVolatility\<close>, then \<open>state.marketData.riskFreeRate\<close>\<close>
  "refreshLeg K env spot vol rate leg =
     (if truthyStr (closingDate leg) then (leg, [])
      else (let timeToExpiry = getYearFraction env (nowISO env) (expiryDate leg);
                iv = (if vol > 0 then vol else impliedVolatility leg)
            in if timeToExpiry \<le> 0
               then (leg \<lparr> currentPrice := Some (intrinsic (optionType leg) spot (strike leg)),
                           currentIv := Some iv \<rparr>, [])
               else (let a = (spot, strike leg, timeToExpiry, rate, iv)
                     in (leg \<lparr> currentPrice := Some (bsPrice K (optionType leg) a),
                               currentIv := Some iv \<rparr>, [a]))))"

definition refreshStructure ::
  "Kernel \<Rightarrow> Env \<Rightarrow> real \<Rightarrow> real \<Rightarrow> real \<Rightarrow> Structure \<Rightarrow> Structure" where
  "refreshStructure K env spot vol rate s =
     (if status s = Closed then s
      else s \<lparr> legs := map (\<lambda>leg. fst (refreshLeg K env spot vol rate leg)) (legs s) \<rparr>)"

section \<open>Payoff chart: the chartPoints and data memos of PayoffChart\<close>

definition minStrike :: "OptionLeg list \<Rightarrow> MarketData \<Rightarrow> real" where
  \<comment> \<open>\<open>Math.min(...strikes, currentSpot)\<close>\<close>
  "minStrike ls md = Min (set (map strike ls @ [daxSpot md]))"

definition maxStrike :: "OptionLeg list \<Rightarrow> MarketData \<Rightarrow> real" where
  \<comment> \<open>\<open>Math.max(...strikes, currentSpot)\<close>\<close>
  "maxStrike ls md = Max (set (map strike ls @ [daxSpot md]))"

definition spread :: "OptionLeg list \<Rightarrow> MarketData \<Rightarrow> real" where
  "spread ls md =
     (let sp = maxStrike ls md - minStrike ls md in
      if sp < daxSpot md * (1 / 100) then daxSpot md * (1 / 100) else sp)"

definition padding :: "OptionLeg list \<Rightarrow> MarketData \<Rightarrow> real \<Rightarrow> real" where
  "padding ls md viewRange =
     (let expansionFactor = viewRange / 100;
          minPadding = spread ls md * (1 / 10);
          maxPadding = max (spread ls md * 5) (daxSpot md * (3 / 10))
      in minPadding + (maxPadding - minPadding) * expansionFactor)"

definition xMin :: "OptionLeg list \<Rightarrow> MarketData \<Rightarrow> real \<Rightarrow> real" where
  \<comment> \<open>\<open>Math.floor(minStrike - padding)\<close>\<close>
  "xMin ls md viewRange = of_int \<lfloor>minStrike ls md - padding ls md viewRange\<rfloor>"

definition xMax :: "OptionLeg list \<Rightarrow> MarketData \<Rightarrow> real \<Rightarrow> real" where
  \<comment> \<open>\<open>Math.ceil(maxStrike + padding)\<close>\<close>
  "xMax ls md viewRange = of_int \<lceil>maxStrike ls md + padding ls md viewRange\<rceil>"

definition pointCount :: nat where
  "pointCount = 150"

text \<open>
  The base points are compared with \<open>xMax\<close> right after they are computed, so the rounding
  of that one computation decides whether the last of them passes the filter. The model
  therefore carries the rounding error of the double computation \<open>xMin + i * step\<close> as a
  parameter \<open>ro i\<close> (the computed value minus the exact one); \<open>ro = (\<lambda>i. 0)\<close> is exact
  arithmetic. In doubles \<open>ro 0 = 0\<close>, since \<open>0 * step\<close> and \<open>xMin + 0\<close> are exact. All
  other arithmetic of the chart is exact in the model.
\<close>

definition basePoints :: "(nat \<Rightarrow> real) \<Rightarrow> real \<Rightarrow> real \<Rightarrow> real list" where
  \<comment> \<open>\<open>Array.from({ length: pointCount + 1 }, (_, i) => xMin + i * step)\<close>\<close>
  "basePoints ro lo hi =
     (let step = (hi - lo) / real pointCount in
      map (\<lambda>i. lo + real i * step + ro i) [0 ..< pointCount + 1])"

definition criticalPoints :: "OptionLeg list \<Rightarrow> MarketData \<Rightarrow> real list" where
  "criticalPoints ls md =
     daxSpot md # concat (map (\<lambda>s. [s, s - 1 / 2, s + 1 / 2]) (map strike ls))"

definition mergedPoints :: "(nat \<Rightarrow> real) \<Rightarrow> real \<Rightarrow> real \<Rightarrow> real list \<Rightarrow> real list" where
  \<comment> \<open>\<open>[...basePoints, ...criticalPoints].filter(p => p >= xMin && p <= xMax).sort((a, b) => a - b)\<close>;
      the comparator orders numbers ascending\<close>
  "mergedPoints ro lo hi crit =
     sort (filter (\<lambda>p. lo \<le> p \<and> p \<le> hi) (basePoints ro lo hi @ crit))"

definition allPoints ::
  "(nat \<Rightarrow> real) \<Rightarrow> OptionLeg list \<Rightarrow> MarketData \<Rightarrow> real \<Rightarrow> real list" where
  "allPoints ro ls md viewRange =
     mergedPoints ro (xMin ls md viewRange) (xMax ls md viewRange) (criticalPoints ls md)"

fun collapse :: "real \<Rightarrow> real list \<Rightarrow> real list" where
  \<comment> \<open>the \<open>for\<close> loop: a point is kept when it is more than 0.1 above its predecessor
      in \<open>allPoints\<close> (kept or not)\<close>
  "collapse prev [] = []"
| "collapse prev (x # xs) = (if x - prev > 1 / 10 then x # collapse x xs else collapse x xs)"

definition uniquePoints :: "real list \<Rightarrow> real list" where
  "uniquePoints ps = (case ps of [] \<Rightarrow> [] | p # rest \<Rightarrow> p # collapse p rest)"

definition chartPoints ::
  "(nat \<Rightarrow> real) \<Rightarrow> OptionLeg list \<Rightarrow> MarketData \<Rightarrow> real \<Rightarrow> real list" where
  "chartPoints ro ls md viewRange =
     (if ls = [] then [] else uniquePoints (allPoints ro ls md viewRange))"

record ChartProps =
  c_legs :: "OptionLeg list"
  c_marketData :: MarketData
  c_multiplier :: real
  structureStatus :: "Status option"
  c_realizedPnl :: "real option"

record ChartPoint =
  cp_spot :: real
  pnlExpiry :: real
  pnlSim :: real

definition earliestExpiryDate :: "Env \<Rightarrow> OptionLeg list \<Rightarrow> int" where
  "earliestExpiryDate env ls =
     (if ls = [] then nowMs env
      else Min (set (map (\<lambda>l. getTime env (expiryDate l)) ls)))"

definition valAtExpiry ::
  "Kernel \<Rightarrow> Env \<Rightarrow> MarketData \<Rightarrow> int \<Rightarrow> real \<Rightarrow> OptionLeg \<Rightarrow> real \<times> BSArgs list" where
  "valAtExpiry K env md earliest s leg =
     (if \<bar>getTime env (expiryDate leg) - earliest\<bar> < 24 * 3600 * 1000
      then (intrinsic (optionType leg) s (strike leg), [])
      else (let t_remaining = getYearFraction env (toISOString env earliest) (expiryDate leg);
                a = (s, strike leg, t_remaining, riskFreeRate md, impliedVolatility leg)
            in (bsPrice K (optionType leg) a, [a])))"

definition valSimulated ::
  "Kernel \<Rightarrow> Env \<Rightarrow> MarketData \<Rightarrow> real \<Rightarrow> real \<Rightarrow> OptionLeg \<Rightarrow> real \<times> BSArgs list" where
  "valSimulated K env md t_elapsed s leg =
     (let t_total_leg = getYearFraction env (nowISO env) (expiryDate leg);
          t_remaining_sim = max 0 (t_total_leg - t_elapsed)
      in if t_remaining_sim < 1 / 1000
         then (intrinsic (optionType leg) s (strike leg), [])
         else (let a = (s, strike leg, t_remaining_sim, riskFreeRate md, impliedVolatility leg)
               in (bsPrice K (optionType leg) a, [a])))"

definition chartLegStep ::
  "Kernel \<Rightarrow> Env \<Rightarrow> MarketData \<Rightarrow> int \<Rightarrow> real \<Rightarrow> real \<Rightarrow> real \<times> real \<Rightarrow> OptionLeg
   \<Rightarrow> real \<times> real" where
  \<comment> \<open>the body of \<open>legs.forEach\<close>; the pair is (\<open>pnlAtFirstExpiry\<close>, \<open>pnlSimulated\<close>)\<close>
  "chartLegStep K env md earliest t_elapsed s acc leg =
     (let vE = fst (valAtExpiry K env md earliest s leg);
          vS = fst (valSimulated K env md t_elapsed s leg)
      in if quantity leg > 0
         then (fst acc + (vE - tradePrice leg) * quantity leg,
               snd acc + (vS - tradePrice leg) * quantity leg)
         else (fst acc + (tradePrice leg - vE) * \<bar>quantity leg\<bar>,
               snd acc + (tradePrice leg - vS) * \<bar>quantity leg\<bar>))"

definition chartData ::
  "Kernel \<Rightarrow> Env \<Rightarrow> ChartProps \<Rightarrow> real \<Rightarrow> real \<Rightarrow> ChartPoint list" where
  \<comment> \<open>the \<open>data\<close> memo; the last two arguments are \<open>viewRange\<close> and \<open>simTimePercent\<close>\<close>
  "chartData K env props viewRange simTimePercent =
     (let pts = chartPoints (baseRoundoff env) (c_legs props) (c_marketData props) viewRange in
      if pts = [] then []
      else case (if structureStatus props = Some Closed then c_realizedPnl props else None) of
        Some realized \<Rightarrow>
          map (\<lambda>s. \<lparr> cp_spot = s, pnlExpiry = realized, pnlSim = realized \<rparr>) pts
      | None \<Rightarrow>
           (let earliest = earliestExpiryDate env (c_legs props);
                t_now_to_expiry = getYearFraction env (nowISO env) (toISOString env earliest);
                t_elapsed = t_now_to_expiry * (simTimePercent / 100)
            in map (\<lambda>s.
                 (let r = foldl (chartLegStep K env (c_marketData props) earliest t_elapsed s)
                                (0, 0) (c_legs props)
                  in \<lparr> cp_spot = s, pnlExpiry = fst r * c_multiplier props,
                        pnlSim = snd r * c_multiplier props \<rparr>)) pts))"

section \<open>Equity and drawdown: the memos of PortfolioAnalysis\<close>

definition isDigit :: "char \<Rightarrow> bool" where
  \<comment> \<open>the class \<open>\d\<close>: the ASCII digits\<close>
  "isDigit c = (48 \<le> (of_char c :: nat) \<and> (of_char c :: nat) \<le> 57)"

definition parseInt :: "string \<Rightarrow> int" where
  \<comment> \<open>\<open>parseInt\<close> on a string of decimal digits (exact, where a double would round a
      number above 2^53)\<close>
  "parseInt ds = foldl (\<lambda>n c. 10 * n + (int (of_char c) - 48)) 0 ds"

definition getSerial :: "string \<Rightarrow> int" where
  \<comment> \<open>\<open>tag.match(/(\d+)$/)\<close> is the longest run of digits that ends the tag\<close>
  "getSerial t =
     (let digits = rev (takeWhile isDigit (rev t)) in
      if digits = [] then - 1 else parseInt digits)"

definition legClosingDates :: "Env \<Rightarrow> Structure \<Rightarrow> int list" where
  \<comment> \<open>\<open>legs.map(l => l.closingDate).filter(d => d).map(d => new Date(d).getTime())\<close>\<close>
  "legClosingDates env s =
     concat (map (\<lambda>l. case closingDate l of
                         None \<Rightarrow> []
                       | Some d \<Rightarrow> if d \<noteq> [] then [getTime env d] else []) (legs s))"

definition getEffectiveClosingDate :: "Env \<Rightarrow> Structure \<Rightarrow> int" where
  "getEffectiveClosingDate env s =
     (if legClosingDates env s \<noteq> [] then Max (set (legClosingDates env s))
      else (case structClosingDate s of
              None \<Rightarrow> 0
            | Some d \<Rightarrow> if d \<noteq> [] then getTime env d else 0))"

definition compareStructures :: "Env \<Rightarrow> Structure \<Rightarrow> Structure \<Rightarrow> int" where
  \<comment> \<open>the comparator handed to \<open>sort\<close>\<close>
  "compareStructures env a b =
     (let serialA = getSerial (tag a); serialB = getSerial (tag b) in
      if serialA \<noteq> - 1 \<and> serialB \<noteq> - 1 then serialA - serialB
      else getEffectiveClosingDate env a - getEffectiveClosingDate env b)"

text \<open>
  \<open>Array.prototype.sort\<close> is stable; it is modelled as the stable insertion sort, which
  places an element before the first element it does not exceed. On an input whose
  comparator is a consistent order every stable sort returns the same array.
\<close>

fun insertBy :: "('a \<Rightarrow> 'a \<Rightarrow> int) \<Rightarrow> 'a \<Rightarrow> 'a list \<Rightarrow> 'a list" where
  "insertBy c x [] = [x]"
| "insertBy c x (y # ys) = (if c x y \<le> 0 then x # y # ys else y # insertBy c x ys)"

definition sortBy :: "('a \<Rightarrow> 'a \<Rightarrow> int) \<Rightarrow> 'a list \<Rightarrow> 'a list" where
  "sortBy c xs = foldr (insertBy c) xs []"

definition closedStructures :: "Structure list \<Rightarrow> Structure list" where
  "closedStructures ss = filter (\<lambda>s. status s = Closed) ss"

definition sortedStructures :: "Env \<Rightarrow> Structure list \<Rightarrow> Structure list" where
  "sortedStructures env ss = sortBy (compareStructures env) (closedStructures ss)"

text \<open>
  An equity point without its two display strings (\<open>uniqueId\<close> and the formatted date
  \<open>name\<close>), which no computation reads.
\<close>

record EquityPoint =
  e_tag :: string
  equity :: real
  drawdown :: real
  e_date :: int

fun equityWalk ::
  "Env \<Rightarrow> real \<Rightarrow> real \<Rightarrow> EquityPoint list \<Rightarrow> Structure list \<Rightarrow> EquityPoint list" where
  \<comment> \<open>the \<open>forEach\<close> over the sorted structures: arguments are the initial capital, the
      running \<open>cumulativePnl\<close> and the \<open>dataPoints\<close> pushed so far\<close>
  "equityWalk env cap cum pts [] = pts"
| "equityWalk env cap cum pts (s # ss) =
     (let cum1 = cum + orZero (realizedPnl s);
          currentEquity = cap + cum1;
          peakEquity = Max (set (cap # map equity pts @ [currentEquity]));
          dd = currentEquity - peakEquity
      in equityWalk env cap cum1
           (pts @ [\<lparr> e_tag = tag s, equity = currentEquity, drawdown = dd,
                     e_date = getEffectiveClosingDate env s \<rparr>]) ss)"

definition startPoint :: "real \<Rightarrow> EquityPoint" where
  "startPoint cap = \<lparr> e_tag = ''Capitale Iniziale'', equity = cap, drawdown = 0, e_date = 0 \<rparr>"

definition equityChartData :: "Env \<Rightarrow> real \<Rightarrow> Structure list \<Rightarrow> EquityPoint list" where
  \<comment> \<open>arguments: \<open>safeInitialCapital\<close> and the store's structures\<close>
  "equityChartData env cap ss =
     (if closedStructures ss = [] then []
      else equityWalk env cap 0 [startPoint cap] (sortedStructures env ss))"

definition maxDrawdown :: "EquityPoint list \<Rightarrow> real" where
  \<comment> \<open>\<open>equityChartData.length > 1 ? Math.min(0, ...equityChartData.map(d => d.drawdown)) : 0\<close>\<close>
  "maxDrawdown d = (if length d > 1 then Min (set (0 # map drawdown d)) else 0)"

section \<open>Sample inputs\<close>

text \<open>
  Concrete inputs on which the definitions are evaluated. \<open>sampleKernel\<close> is a stand-in
  with simple arithmetic in place of the Black-Scholes formulas (which need the normal
  distribution function); only its dependence on its five arguments matters where it
  is used. \<open>sampleEnv\<close> fixes the clock: the expiry \<open>2026-12-18\<close> is a tenth of a year
  away, every other date has passed; timestamps are milliseconds (UTC midnight) and any
  date not listed reads as \<open>2026-09-18\<close>.
\<close>

definition sampleKernel :: Kernel where
  "sampleKernel =
     \<lparr> callPrice = (\<lambda>(s, k, t, r, v). max 0 (s - k) + 1000 * v * t),
       putPrice = (\<lambda>(s, k, t, r, v). max 0 (k - s) + 1000 * v * t),
       callGreeks = (\<lambda>(s, k, t, r, v).
          \<lparr> delta = 1 / 2 + v * t, gamma = 1 / 1000, theta = - 5, vega = 20 \<rparr>),
       putGreeks = (\<lambda>(s, k, t, r, v).
          \<lparr> delta = v * t - 1 / 2, gamma = 1 / 1000, theta = - 5, vega = 20 \<rparr>) \<rparr>"

definition sampleEnv :: Env where
  "sampleEnv =
     \<lparr> getTimeToExpiry = (\<lambda>d. if d = ''2026-12-18'' then 1 / 10 else 0),
       getYearFraction = (\<lambda>a b. if b = ''2026-12-18'' then 1 / 10 else 0),
       getTime = (\<lambda>d. if d = ''2026-12-18'' then 1797552000000
                      else if d = ''2026-10-20'' then 1792454400000
                      else if d = ''2026-10-27'' then 1793059200000
                      else if d = ''2026-11-03'' then 1793664000000
                      else 1789689600000),
       toISOString = (\<lambda>t. if t = 1797552000000 then ''2026-12-18'' else ''2026-09-18''),
       nowISO = ''2026-11-11'',
       nowMs = 1794400000000,
       baseRoundoff = (\<lambda>i. 0) \<rparr>"

definition sampleMarket :: MarketData where
  "sampleMarket = \<lparr> daxSpot = 24500, daxVolatility = 3 / 10, riskFreeRate = 261 / 10000 \<rparr>"

definition legOpen :: OptionLeg where
  "legOpen =
     \<lparr> legId = ''a'', optionType = Call, strike = 24500, expiryDate = ''2026-12-18'',
       quantity = 2, tradePrice = 100, openingDate = ''2026-10-01'', closingPrice = None,
       closingDate = None, impliedVolatility = 1 / 5, openingCommission = Some 2,
       closingCommission = Some 2, enabled = Some True, currentPrice = None,
       currentIv = None \<rparr>"

definition legClosed :: OptionLeg where
  "legClosed =
     \<lparr> legId = ''b'', optionType = Put, strike = 24000, expiryDate = ''2026-12-18'',
       quantity = - 1, tradePrice = 80, openingDate = ''2026-10-01'', closingPrice = Some 50,
       closingDate = Some ''2026-10-20'', impliedVolatility = 1 / 5,
       openingCommission = Some 2, closingCommission = None, enabled = None,
       currentPrice = None, currentIv = None \<rparr>"

definition legOff :: OptionLeg where
  "legOff =
     \<lparr> legId = ''c'', optionType = Call, strike = 25000, expiryDate = ''2026-12-18'',
       quantity = 3, tradePrice = 40, openingDate = ''2026-10-01'', closingPrice = None,
       closingDate = None, impliedVolatility = 1 / 4, openingCommission = Some 2,
       closingCommission = Some 2, enabled = Some False, currentPrice = None,
       currentIv = None \<rparr>"

definition sampleActive :: Structure where
  "sampleActive =
     \<lparr> structId = Some ''s1'', tag = ''Condor 7'', legs = [legOpen, legClosed, legOff],
       status = Active, multiplier = 5, structClosingDate = None, realizedPnl = None \<rparr>"

definition sampleClosed :: Structure where
  "sampleClosed =
     \<lparr> structId = Some ''s2'', tag = ''Strangle 3'', legs = [legClosed, legOff],
       status = Closed, multiplier = 5, structClosingDate = Some ''2026-10-20'',
       realizedPnl = Some (- 241 / 2) \<rparr>"

definition sampleDetail :: DetailState where
  "sampleDetail =
     \<lparr> localStructure = sampleActive, structures = [sampleActive, sampleClosed],
       marketData = sampleMarket, simulatedSpot = 24500, isLiveMode = True \<rparr>"

definition legOpenLive :: OptionLeg where
  \<comment> \<open>\<open>legOpen\<close> as the store holds it after a live refresh at the market volatility\<close>
  "legOpenLive = legOpen \<lparr> currentPrice := Some 30, currentIv := Some (3 / 10) \<rparr>"

definition sampleLive :: DetailState where
  "sampleLive =
     sampleDetail \<lparr> structures :=
       [sampleActive \<lparr> legs := [legOpenLive, legClosed, legOff] \<rparr>, sampleClosed] \<rparr>"

definition legExpired :: OptionLeg where
  \<comment> \<open>an open leg whose expiry has passed\<close>
  "legExpired = legOpen \<lparr> legId := ''d'', strike := 24000, expiryDate := ''2026-09-18'' \<rparr>"

definition tinyMarket :: MarketData where
  \<comment> \<open>an underlying that trades at 10\<close>
  "tinyMarket = \<lparr> daxSpot = 10, daxVolatility = 0, riskFreeRate = 0 \<rparr>"

definition tinyLeg :: OptionLeg where
  "tinyLeg = legOpen \<lparr> strike := 10 \<rparr>"

definition deepLeg :: OptionLeg where
  \<comment> \<open>a strike far below the spot of \<open>sampleMarket\<close>\<close>
  "deepLeg = legOpen \<lparr> strike := 17600 \<rparr>"

definition doubleRoundoff :: "nat \<Rightarrow> real" where
  \<comment> \<open>for \<open>xMin = 10148\<close> and \<open>xMax = 31952\<close>: in doubles \<open>10148 + 150 * (21804 / 150)\<close> is
      \<open>31952.000000000004\<close>, one unit in the last place (\<open>2^-38\<close>) above \<open>31952\<close>; the errors
      of the other base points, all below \<open>10^-11\<close>, are left at zero\<close>
  "doubleRoundoff i = (if i = 150 then 1 / 2 ^ 38 else 0)"

definition closedProps :: ChartProps where
  "closedProps =
     \<lparr> c_legs = [legClosed], c_marketData = sampleMarket, c_multiplier = 5,
       structureStatus = Some Closed, c_realizedPnl = Some (- 241 / 2) \<rparr>"

definition emptyProps :: ChartProps where
  "emptyProps =
     \<lparr> c_legs = [], c_marketData = sampleMarket, c_multiplier = 5,
       structureStatus = Some Active, c_realizedPnl = None \<rparr>"

definition closedAlpha :: Structure where
  "closedAlpha =
     \<lparr> structId = Some ''s3'', tag = ''Alpha 2'', legs = [], status = Closed, multiplier = 5,
       structClosingDate = Some ''2026-10-20'', realizedPnl = Some 300 \<rparr>"

definition closedBeta :: Structure where
  "closedBeta =
     \<lparr> structId = Some ''s4'', tag = ''Beta 1'', legs = [], status = Closed, multiplier = 5,
       structClosingDate = Some ''2026-10-27'', realizedPnl = Some (- 100) \<rparr>"

definition closedGamma :: Structure where
  "closedGamma =
     \<lparr> structId = Some ''s5'', tag = ''Gamma'', legs = [], status = Closed, multiplier = 5,
       structClosingDate = Some ''2026-11-03'', realizedPnl = Some 50 \<rparr>"

definition closedDelta :: Structure where
  "closedDelta =
     \<lparr> structId = Some ''s6'', tag = ''Delta'', legs = [legClosed], status = Closed,
       multiplier = 5, structClosingDate = Some ''2026-11-03'', realizedPnl = Some 20 \<rparr>"

section \<open>Properties\<close>

lemma pnlStep_unfold:
  "pnlStep K env s md acc l =
     (if isDisabled l then acc
      else (\<lparr> netPnl = netPnl (fst acc) +
                legNetPnl (multiplier s) (fst (listLegPrice K env md l)) l,
              totalPoints = totalPoints (fst acc) +
                legPnlPoints (fst (listLegPrice K env md l)) l \<rparr>,
            snd acc @ snd (listLegPrice K env md l)))"
  by (simp add: pnlStep_def split_beta)

lemma pnlStep_foldl:
  "foldl (pnlStep K env s md) acc ls =
     (\<lparr> netPnl = netPnl (fst acc) +
          (\<Sum>l \<leftarrow> filter (\<lambda>l. \<not> isDisabled l) ls.
              legNetPnl (multiplier s) (fst (listLegPrice K env md l)) l),
        totalPoints = totalPoints (fst acc) +
          (\<Sum>l \<leftarrow> filter (\<lambda>l. \<not> isDisabled l) ls.
              legPnlPoints (fst (listLegPrice K env md l)) l) \<rparr>,
      snd acc @ concat (map (\<lambda>l. snd (listLegPrice K env md l))
                            (filter (\<lambda>l. \<not> isDisabled l) ls)))"
proof (induction ls arbitrary: acc)
  case Nil
  show ?case by (simp add: prod_eq_iff)
next
  case (Cons l ls)
  show ?case
    unfolding foldl_Cons Cons.IH
    by (simp add: pnlStep_unfold add.assoc)
qed

subsection \<open>The detail view's totals as sums over legs\<close>

lemma find_distinct_leg:
  "distinct (map legId ls) \<Longrightarrow> l \<in> set ls \<Longrightarrow> find (\<lambda>x. legId x = legId l) ls = Some l"
proof (induction ls)
  case Nil
  then show ?case by simp
next
  case (Cons x xs)
  show ?case
  proof (cases "x = l")
    case True
    then show ?thesis by simp
  next
    case False
    with Cons.prems have mem: "l \<in> set xs" by simp
    with Cons.prems have "legId x \<noteq> legId l" by auto
    with Cons.IH Cons.prems mem show ?thesis by simp
  qed
qed

lemma analysis_id: "a_id (fst (legAnalysisOf K env st l)) = legId l"
  by (simp add: legAnalysisOf_def Let_def)

lemma analysis_closed: "a_isClosed (fst (legAnalysisOf K env st l)) = isLegClosed l"
  by (simp add: legAnalysisOf_def Let_def)

lemma skipped_distinct:
  assumes "distinct (map legId (legs (localStructure st)))" "l \<in> set (legs (localStructure st))"
  shows "skippedInTotals st (fst (legAnalysisOf K env st l)) = isDisabled l"
  using find_distinct_leg [OF assms] by (simp add: skippedInTotals_def analysis_id)

lemma totalsStep_fields:
  "t_pnl (totalsStep st acc an) = t_pnl acc + (if skippedInTotals st an then 0 else a_netPnl an)"
  "t_pnlPoints (totalsStep st acc an) = t_pnlPoints acc + (if skippedInTotals st an then 0 else a_pnlPoints an)"
  "t_gross (totalsStep st acc an) = t_gross acc + (if skippedInTotals st an then 0 else a_grossPnl an)"
  "t_comm (totalsStep st acc an) = t_comm acc + (if skippedInTotals st an then 0 else a_commissions an)"
  "t_delta (totalsStep st acc an) = t_delta acc + (if skippedInTotals st an \<or> a_isClosed an then 0 else a_delta an)"
  "t_gamma (totalsStep st acc an) = t_gamma acc + (if skippedInTotals st an \<or> a_isClosed an then 0 else a_gamma an)"
  "t_theta (totalsStep st acc an) = t_theta acc + (if skippedInTotals st an \<or> a_isClosed an then 0 else a_theta an)"
  "t_vega (totalsStep st acc an) = t_vega acc + (if skippedInTotals st an \<or> a_isClosed an then 0 else a_vega an)"
  "t_thetaPoints (totalsStep st acc an) = t_thetaPoints acc + (if skippedInTotals st an \<or> a_isClosed an then 0 else a_thetaPoints an)"
  "t_vegaPoints (totalsStep st acc an) = t_vegaPoints acc + (if skippedInTotals st an \<or> a_isClosed an then 0 else a_vegaPoints an)"
  by (simp_all add: totalsStep_def Let_def)

lemma totals_field_foldl:
  fixes f :: "Totals \<Rightarrow> real"
  assumes step: "\<And>acc an. f (totalsStep st acc an) = f acc + (if skip an then 0 else g an)"
  shows "f (foldl (totalsStep st) acc ans) = f acc + (\<Sum>an \<leftarrow> filter (\<lambda>an. \<not> skip an) ans. g an)"
proof (induction ans arbitrary: acc)
  case Nil
  show ?case by simp
next
  case (Cons an ans)
  show ?case unfolding foldl_Cons Cons.IH step by (simp add: add.assoc)
qed

lemma filter_map_analysis:
  assumes d: "distinct (map legId (legs (localStructure st)))"
    and sub: "set ms \<subseteq> set (legs (localStructure st))"
    and pq: "\<And>l. l \<in> set (legs (localStructure st)) \<Longrightarrow>
               P (fst (legAnalysisOf K env st l)) = Q l"
  shows "(\<Sum>an \<leftarrow> filter (\<lambda>an. \<not> (skippedInTotals st an \<or> P an))
                    (map (\<lambda>l. fst (legAnalysisOf K env st l)) ms). g an)
       = (\<Sum>l \<leftarrow> filter (\<lambda>l. \<not> (isDisabled l \<or> Q l)) ms. g (fst (legAnalysisOf K env st l)))"
  using sub
proof (induction ms)
  case Nil
  show ?case by simp
next
  case (Cons m ms)
  then have m: "m \<in> set (legs (localStructure st))" and ms: "set ms \<subseteq> set (legs (localStructure st))"
    by simp_all
  show ?case
    using Cons.IH [OF ms] skipped_distinct [OF d m, of K env] pq [OF m] by simp
qed

lemma totals_field:
  fixes f :: "Totals \<Rightarrow> real"
  assumes d: "distinct (map legId (legs (localStructure st)))"
    and step: "\<And>acc an. f (totalsStep st acc an) = f acc + (if skippedInTotals st an \<or> P an then 0 else g an)"
    and pq: "\<And>l. l \<in> set (legs (localStructure st)) \<Longrightarrow>
               P (fst (legAnalysisOf K env st l)) = Q l"
    and z: "f zeroTotals = 0"
  shows "f (totals K env st)
       = (\<Sum>l \<leftarrow> filter (\<lambda>l. \<not> (isDisabled l \<or> Q l)) (legs (localStructure st)).
             g (fst (legAnalysisOf K env st l)))"
proof -
  have a: "f (foldl (totalsStep st) zeroTotals (map (\<lambda>l. fst (legAnalysisOf K env st l)) (legs (localStructure st))))
        = f zeroTotals + (\<Sum>an \<leftarrow> filter (\<lambda>an. \<not> (skippedInTotals st an \<or> P an))
             (map (\<lambda>l. fst (legAnalysisOf K env st l)) (legs (localStructure st))). g an)"
    by (rule totals_field_foldl) (rule step)
  have b: "(\<Sum>an \<leftarrow> filter (\<lambda>an. \<not> (skippedInTotals st an \<or> P an))
             (map (\<lambda>l. fst (legAnalysisOf K env st l)) (legs (localStructure st))). g an)
         = (\<Sum>l \<leftarrow> filter (\<lambda>l. \<not> (isDisabled l \<or> Q l)) (legs (localStructure st)).
             g (fst (legAnalysisOf K env st l)))"
    by (rule filter_map_analysis) (use d pq in simp_all)
  show ?thesis unfolding totals_def legAnalysis_def a b by (simp add: z)
qed

subsection \<open>The list view's Greeks as sums over legs\<close>

lemma greeksStep_unfold:
  "greeksStep K env md acc l =
     (if isDisabled l \<or> isLegClosed l then acc
      else \<lparr> delta = delta acc + delta (bsGreeks K (optionType l) (listArgs env md l)) * quantity l,
             gamma = gamma acc + gamma (bsGreeks K (optionType l) (listArgs env md l)) * quantity l,
             theta = theta acc + theta (bsGreeks K (optionType l) (listArgs env md l)) * quantity l,
             vega = vega acc + vega (bsGreeks K (optionType l) (listArgs env md l)) * quantity l \<rparr>)"
  by (simp add: greeksStep_def Let_def)

lemma greeks_foldl:
  "foldl (greeksStep K env md) acc ls =
     \<lparr> delta = delta acc + (\<Sum>l \<leftarrow> filter (\<lambda>l. \<not> (isDisabled l \<or> isLegClosed l)) ls.
          delta (bsGreeks K (optionType l) (listArgs env md l)) * quantity l),
       gamma = gamma acc + (\<Sum>l \<leftarrow> filter (\<lambda>l. \<not> (isDisabled l \<or> isLegClosed l)) ls.
          gamma (bsGreeks K (optionType l) (listArgs env md l)) * quantity l),
       theta = theta acc + (\<Sum>l \<leftarrow> filter (\<lambda>l. \<not> (isDisabled l \<or> isLegClosed l)) ls.
          theta (bsGreeks K (optionType l) (listArgs env md l)) * quantity l),
       vega = vega acc + (\<Sum>l \<leftarrow> filter (\<lambda>l. \<not> (isDisabled l \<or> isLegClosed l)) ls.
          vega (bsGreeks K (optionType l) (listArgs env md l)) * quantity l) \<rparr>"
proof (induction ls arbitrary: acc)
  case Nil
  show ?case by simp
next
  case (Cons l ls)
  show ?case
    unfolding foldl_Cons Cons.IH
    by (simp add: greeksStep_unfold add.assoc)
qed

lemma calculateTotalGreeks_sum:
  "calculateTotalGreeks K env s md =
     \<lparr> delta = (\<Sum>l \<leftarrow> filter (\<lambda>l. \<not> (isDisabled l \<or> isLegClosed l)) (legs s).
          delta (bsGreeks K (optionType l) (listArgs env md l)) * quantity l),
       gamma = (\<Sum>l \<leftarrow> filter (\<lambda>l. \<not> (isDisabled l \<or> isLegClosed l)) (legs s).
          gamma (bsGreeks K (optionType l) (listArgs env md l)) * quantity l),
       theta = (\<Sum>l \<leftarrow> filter (\<lambda>l. \<not> (isDisabled l \<or> isLegClosed l)) (legs s).
          theta (bsGreeks K (optionType l) (listArgs env md l)) * quantity l),
       vega = (\<Sum>l \<leftarrow> filter (\<lambda>l. \<not> (isDisabled l \<or> isLegClosed l)) (legs s).
          vega (bsGreeks K (optionType l) (listArgs env md l)) * quantity l) \<rparr>"
  by (simp add: calculateTotalGreeks_def greeks_foldl initialGreeks_def)

lemma portfolio_foldl:
  "foldl (portfolioStep K env md) acc ss =
     \<lparr> p_delta = p_delta acc + (\<Sum>s \<leftarrow> ss. delta (calculateTotalGreeks K env s md)),
       p_gamma = p_gamma acc + (\<Sum>s \<leftarrow> ss. gamma (calculateTotalGreeks K env s md)),
       p_theta = p_theta acc + (\<Sum>s \<leftarrow> ss. theta (calculateTotalGreeks K env s md) * multiplier s),
       p_vega = p_vega acc + (\<Sum>s \<leftarrow> ss. vega (calculateTotalGreeks K env s md) * multiplier s),
       p_thetaPoints = p_thetaPoints acc + (\<Sum>s \<leftarrow> ss. theta (calculateTotalGreeks K env s md)),
       p_vegaPoints = p_vegaPoints acc + (\<Sum>s \<leftarrow> ss. vega (calculateTotalGreeks K env s md)) \<rparr>"
proof (induction ss arbitrary: acc)
  case Nil
  show ?case by simp
next
  case (Cons s ss)
  show ?case
    unfolding foldl_Cons Cons.IH
    by (simp add: portfolioStep_def Let_def add.assoc)
qed

lemmas sample_defs =
  sampleKernel_def sampleEnv_def sampleMarket_def legOpen_def legClosed_def legOff_def
  sampleActive_def sampleClosed_def sampleDetail_def legOpenLive_def sampleLive_def
  legExpired_def tinyMarket_def tinyLeg_def deepLeg_def closedProps_def emptyProps_def
  closedAlpha_def closedBeta_def closedGamma_def closedDelta_def

lemmas list_defs =
  pnlCalculated_def pnlStep_def listLegPrice_def openLegPrice_def listArgs_def bsPrice_def
  bsGreeks_def intrinsic_def isLegClosed_def isDisabled_def orZero_def legPnlPoints_def
  legCommissions_def legNetPnl_def calculatePnlInfoForStructure_def

lemmas detail_defs =
  totals_def legAnalysis_def totalsStep_def skippedInTotals_def legAnalysisOf_def
  detailArgs_def volatilityToUse_def storeLegOf_def zeroTotals_def

lemma sum_list_filter_cong:
  fixes f g :: "'a \<Rightarrow> real"
  assumes "\<And>x. x \<in> set xs \<Longrightarrow> P x \<Longrightarrow> f x = g x"
  shows "(\<Sum>x \<leftarrow> filter P xs. f x) = (\<Sum>x \<leftarrow> filter P xs. g x)"
  by (rule arg_cong [where f = sum_list], rule map_cong) (use assms in auto)

subsection \<open>The price grid of the payoff chart\<close>

lemma collapse_gaps:
  "sorted (p # xs) \<Longrightarrow>
     sorted_wrt (\<lambda>a b. a + 1 / 10 < b) (collapse p xs)
     \<and> (\<forall>y \<in> set (collapse p xs). p + 1 / 10 < y)"
proof (induction xs arbitrary: p)
  case Nil
  show ?case by simp
next
  case (Cons x xs)
  from Cons.prems have px: "p \<le> x" and s: "sorted (x # xs)" by simp_all
  from Cons.IH [OF s] px show ?case by auto
qed

lemma collapse_subset: "set (collapse p xs) \<subseteq> set xs"
  by (induction xs arbitrary: p) auto

lemma collapse_nil:
  "(\<forall>i < length xs. (p # xs) ! Suc i - (p # xs) ! i \<le> 1 / 10) \<Longrightarrow> collapse p xs = []"
proof (induction xs arbitrary: p)
  case Nil
  show ?case by simp
next
  case (Cons x xs)
  from Cons.prems have "(p # x # xs) ! Suc 0 - (p # x # xs) ! 0 \<le> 1 / 10" by blast
  then have 1: "x - p \<le> 1 / 10" by simp
  have "\<forall>i < length xs. (x # xs) ! Suc i - (x # xs) ! i \<le> 1 / 10"
  proof (intro allI impI)
    fix i assume "i < length xs"
    then have "Suc i < length (x # xs)" by simp
    with Cons.prems have "(p # x # xs) ! Suc (Suc i) - (p # x # xs) ! Suc i \<le> 1 / 10" by blast
    then show "(x # xs) ! Suc i - (x # xs) ! i \<le> 1 / 10" by simp
  qed
  from Cons.IH [OF this] 1 show ?case by simp
qed

lemma uniquePoints_subset: "set (uniquePoints ps) \<subseteq> set ps"
  using collapse_subset by (cases ps) (auto simp add: uniquePoints_def)

lemma uniquePoints_hd: "ps \<noteq> [] \<Longrightarrow> uniquePoints ps \<noteq> [] \<and> hd (uniquePoints ps) = hd ps"
  by (cases ps) (auto simp add: uniquePoints_def)

lemma uniquePoints_single:
  assumes "ps \<noteq> []" "\<forall>i. Suc i < length ps \<longrightarrow> ps ! Suc i - ps ! i \<le> 1 / 10"
  shows "uniquePoints ps = [hd ps]"
proof -
  obtain p ps' where ps: "ps = p # ps'" using assms(1) by (cases ps) auto
  have "collapse p ps' = []"
    by (rule collapse_nil) (use assms(2) ps in auto)
  then show ?thesis by (simp add: ps uniquePoints_def)
qed

lemma grid_cell:
  fixes lo b step :: real
  shows "lo < b \<Longrightarrow> b \<le> lo + real n * step \<Longrightarrow>
         \<exists>k < n. lo + real k * step < b \<and> b \<le> lo + real (Suc k) * step"
proof (induction n)
  case 0
  then show ?case by simp
next
  case (Suc n)
  show ?case
  proof (cases "b \<le> lo + real n * step")
    case True
    from Suc.IH [OF Suc.prems(1) True] show ?thesis using less_Suc_eq by auto
  next
    case False
    with Suc.prems(2) show ?thesis by (intro exI [of _ n]) simp
  qed
qed

lemma grid_next: "lo + real (Suc k) * s = (lo + real k * s) + (s::real)"
  by (simp add: distrib_right)

lemma grid_full: "lo + 150 * ((hi - lo) / 150) = (hi::real)"
  by argo

lemma basePoints_set:
  "set (basePoints ro lo hi) = (\<lambda>i. lo + real i * ((hi - lo) / 150) + ro i) ` {0 ..< 151}"
  by (simp add: basePoints_def pointCount_def Let_def)

lemma mergedPoints_set:
  "set (mergedPoints ro lo hi crit) =
     {p \<in> set (basePoints ro lo hi) \<union> set crit. lo \<le> p \<and> p \<le> hi}"
  by (auto simp add: mergedPoints_def)

lemma mergedPoints_sorted: "sorted (mergedPoints ro lo hi crit)"
  by (simp add: mergedPoints_def)

lemma mergedPoints_lo:
  assumes "lo \<le> hi" "ro 0 = 0"
  shows "lo \<in> set (mergedPoints ro lo hi crit)"
proof -
  have "lo + real 0 * ((hi - lo) / 150) + ro 0 \<in> set (basePoints ro lo hi)"
    unfolding basePoints_set by (rule imageI) simp
  then have "lo \<in> set (basePoints ro lo hi)" using assms(2) by simp
  then show ?thesis using assms(1) by (simp add: mergedPoints_set)
qed

lemma sorted_hd_le: "sorted xs \<Longrightarrow> x \<in> set xs \<Longrightarrow> hd xs \<le> x"
  by (cases xs) auto

lemma mergedPoints_hd:
  assumes "lo \<le> hi" "ro 0 = 0"
  shows "mergedPoints ro lo hi crit \<noteq> [] \<and> hd (mergedPoints ro lo hi crit) = lo"
proof -
  have ne: "mergedPoints ro lo hi crit \<noteq> []"
    using mergedPoints_lo [of lo hi ro crit] assms by auto
  then have "hd (mergedPoints ro lo hi crit) \<in> set (mergedPoints ro lo hi crit)" by simp
  then have "lo \<le> hd (mergedPoints ro lo hi crit)" by (simp add: mergedPoints_set)
  moreover have "hd (mergedPoints ro lo hi crit) \<le> lo"
    using mergedPoints_lo [of lo hi ro crit] assms
    by (intro sorted_hd_le [OF mergedPoints_sorted]) simp
  ultimately show ?thesis using ne by simp
qed

lemma mergedPoints_small_gaps:
  assumes lohi: "lo < hi" and r0: "ro 0 = 0" and eps: "\<forall>i. \<bar>ro i\<bar> \<le> e"
    and es: "e < (hi - lo) / 150" and i: "Suc i < length (mergedPoints ro lo hi crit)"
  shows "mergedPoints ro lo hi crit ! Suc i - mergedPoints ro lo hi crit ! i
           \<le> 2 * ((hi - lo) / 150) + e"
proof -
  let ?A = "mergedPoints ro lo hi crit"
  let ?step = "(hi - lo) / 150"
  have st: "0 < ?step" using lohi by simp
  have e0: "0 \<le> e" using eps [rule_format, of 0] by simp
  have srt: "sorted ?A" by (rule mergedPoints_sorted)
  have bm: "?A ! Suc i \<in> set ?A" and am: "?A ! i \<in> set ?A" using i by simp_all
  have rng: "lo \<le> x \<and> x \<le> hi" if "x \<in> set ?A" for x
    using that by (simp add: mergedPoints_set)
  show ?thesis
  proof (cases "lo + ?step < ?A ! Suc i")
    case False
    with rng [OF am] st e0 show ?thesis by linarith
  next
    case True
    then have lob: "lo < ?A ! Suc i" using st by linarith
    have "?A ! Suc i \<le> lo + real 150 * ?step" using rng [OF bm] grid_full [of lo hi] by simp
    from grid_cell [OF lob this] obtain k where k: "k < 150"
      and lt: "lo + real k * ?step < ?A ! Suc i" and le: "?A ! Suc i \<le> lo + real (Suc k) * ?step"
      by blast
    have "k \<noteq> 0"
    proof
      assume "k = 0"
      with le True show False by simp
    qed
    then obtain m where m: "k = Suc m" by (cases k) auto
    let ?g = "lo + real m * ?step + ro m"
    have rm: "- e \<le> ro m" "ro m \<le> e" using eps [rule_format, of m] by (simp_all add: abs_le_iff)
    have ek: "lo + real k * ?step = (lo + real m * ?step) + ?step"
      unfolding m by (rule grid_next)
    have ek1: "lo + real (Suc k) * ?step = (lo + real m * ?step) + ?step + ?step"
      using grid_next [of lo k ?step] ek by simp
    have glt: "?g < ?A ! Suc i" using lt ek rm(2) es by linarith
    have glo: "lo \<le> ?g"
    proof (cases m)
      case 0
      then show ?thesis using r0 by simp
    next
      case (Suc n)
      have "?step * 1 \<le> ?step * real m" using st Suc by (intro mult_left_mono) simp_all
      then have "?step \<le> real m * ?step" by (simp add: mult.commute)
      with rm(1) es show ?thesis by linarith
    qed
    have "?g \<in> set (basePoints ro lo hi)"
      unfolding basePoints_set using k m by (intro imageI) simp
    then have "?g \<in> set ?A"
      using glo glt rng [OF bm] by (simp add: mergedPoints_set)
    then obtain j where j: "j < length ?A" and gj: "?A ! j = ?g"
      by (auto simp add: in_set_conv_nth)
    have "j \<le> i"
    proof (rule ccontr)
      assume "\<not> j \<le> i"
      then have "Suc i \<le> j" by simp
      with srt j have "?A ! Suc i \<le> ?A ! j" by (simp add: sorted_iff_nth_mono)
      with gj glt show False by simp
    qed
    with srt i have "?A ! j \<le> ?A ! i" by (simp add: sorted_iff_nth_mono)
    with gj le ek1 rm(1) show ?thesis by linarith
  qed
qed

lemma mergedPoints_collapses:
  assumes "lo < hi" "ro 0 = 0" "\<forall>i. \<bar>ro i\<bar> \<le> e" "e < (hi - lo) / 150"
    "2 * ((hi - lo) / 150) + e \<le> 1 / 10"
  shows "uniquePoints (mergedPoints ro lo hi crit) = [lo]"
proof -
  have "\<forall>i. Suc i < length (mergedPoints ro lo hi crit) \<longrightarrow>
          mergedPoints ro lo hi crit ! Suc i - mergedPoints ro lo hi crit ! i \<le> 1 / 10"
  proof (intro allI impI)
    fix i assume "Suc i < length (mergedPoints ro lo hi crit)"
    from mergedPoints_small_gaps [OF assms(1-4) this] assms(5)
    show "mergedPoints ro lo hi crit ! Suc i - mergedPoints ro lo hi crit ! i \<le> 1 / 10"
      by linarith
  qed
  moreover have "mergedPoints ro lo hi crit \<noteq> [] \<and> hd (mergedPoints ro lo hi crit) = lo"
    by (rule mergedPoints_hd) (use assms in simp_all)
  ultimately show ?thesis using uniquePoints_single by metis
qed

lemma mergedPoints_below_hi:
  assumes lohi: "lo < hi" and over: "0 < ro 150"
    and small: "\<forall>i < 150. ro i < (hi - lo) / 150"
    and crit: "\<forall>c \<in> set crit. c < hi"
    and p: "p \<in> set (mergedPoints ro lo hi crit)"
  shows "p < hi"
proof -
  let ?step = "(hi - lo) / 150"
  from p have ph: "p \<le> hi" and mem: "p \<in> set (basePoints ro lo hi) \<union> set crit"
    by (simp_all add: mergedPoints_set)
  from mem consider i where "i < 151" "p = lo + real i * ?step + ro i" | "p \<in> set crit"
    by (auto simp add: basePoints_set)
  then show ?thesis
  proof cases
    case 1
    show ?thesis
    proof (cases "i = 150")
      case True
      with 1(2) over grid_full [of lo hi] ph show ?thesis by simp
    next
      case False
      with 1(1) have i: "i < 150" by simp
      then have "real i * ?step \<le> 149 * ?step" using lohi by (intro mult_right_mono) auto
      moreover have "ro i < ?step" using small i by blast
      ultimately show ?thesis using 1(2) grid_full [of lo hi] by linarith
    qed
  next
    case 2
    with crit show ?thesis by blast
  qed
qed

lemma uniquePoints_gaps: "sorted ps \<Longrightarrow> sorted_wrt (\<lambda>a b. a + 1 / 10 < b) (uniquePoints ps)"
  using collapse_gaps by (cases ps) (auto simp add: uniquePoints_def)

lemma strikes_between:
  "minStrike ls md \<le> daxSpot md \<and> daxSpot md \<le> maxStrike ls md
   \<and> (\<forall>l \<in> set ls. minStrike ls md \<le> strike l \<and> strike l \<le> maxStrike ls md)"
  by (simp add: minStrike_def maxStrike_def)

lemma spread_bounds:
  "maxStrike ls md - minStrike ls md \<le> spread ls md \<and> daxSpot md / 100 \<le> spread ls md
   \<and> 0 \<le> spread ls md"
  using strikes_between [of ls md] by (auto simp add: spread_def Let_def)

lemma padding_bounds:
  assumes "0 \<le> viewRange"
  shows "spread ls md / 10 \<le> padding ls md viewRange"
proof -
  have "spread ls md * (1 / 10) \<le> spread ls md * 5" using spread_bounds [of ls md] by simp
  then have "0 \<le> max (spread ls md * 5) (daxSpot md * (3 / 10)) - spread ls md * (1 / 10)"
    by simp
  then have "0 \<le> (max (spread ls md * 5) (daxSpot md * (3 / 10)) - spread ls md * (1 / 10))
                 * (viewRange / 100)"
    using assms by simp
  then show ?thesis by (simp add: padding_def Let_def)
qed

lemma x_bounds:
  "xMin ls md viewRange \<le> minStrike ls md - padding ls md viewRange
   \<and> minStrike ls md - padding ls md viewRange < xMin ls md viewRange + 1
   \<and> maxStrike ls md + padding ls md viewRange \<le> xMax ls md viewRange
   \<and> xMax ls md viewRange < maxStrike ls md + padding ls md viewRange + 1"
  unfolding xMin_def xMax_def by linarith

lemma x_ordered:
  assumes "0 \<le> viewRange"
  shows "xMin ls md viewRange \<le> xMax ls md viewRange"
  using x_bounds [of ls md viewRange] padding_bounds [OF assms, of ls md]
        spread_bounds [of ls md] strikes_between [of ls md]
  by linarith

lemma chartPoints_nonempty:
  assumes "ls \<noteq> []" "0 \<le> viewRange" "ro 0 = 0"
  shows "chartPoints ro ls md viewRange \<noteq> []
         \<and> hd (chartPoints ro ls md viewRange) = xMin ls md viewRange"
  using mergedPoints_hd [of "xMin ls md viewRange" "xMax ls md viewRange" ro
          "criticalPoints ls md"]
        x_ordered [OF assms(2), of ls md] assms(3)
        uniquePoints_hd [of "allPoints ro ls md viewRange"] assms(1)
  by (simp add: chartPoints_def allPoints_def)

lemma chartPoints_increasing:
  "sorted_wrt (<) (chartPoints ro ls md viewRange)"
proof -
  have "sorted_wrt (\<lambda>a b. a + 1 / 10 < b) (chartPoints ro ls md viewRange)"
    using uniquePoints_gaps [OF mergedPoints_sorted]
    by (simp add: chartPoints_def allPoints_def)
  then show ?thesis by (rule sorted_wrt_mono_rel [rotated]) simp
qed

subsection \<open>Sorting by a comparator\<close>

lemma set_insertBy: "set (insertBy c x ys) = insert x (set ys)"
  by (induction ys) auto

lemma mset_insertBy: "mset (insertBy c x ys) = add_mset x (mset ys)"
  by (induction ys) auto

lemma mset_sortBy: "mset (sortBy c xs) = mset xs"
  by (induction xs) (simp_all add: sortBy_def mset_insertBy)

lemma length_sortBy: "length (sortBy c xs) = length xs"
  using mset_sortBy [of c xs] by (metis size_mset)

lemma insertBy_insort_key:
  fixes f :: "'a \<Rightarrow> int"
  shows "(\<forall>y \<in> set ys. (c x y \<le> 0) = (f x \<le> f y)) \<Longrightarrow> insertBy c x ys = insort_key f x ys"
  by (induction ys) auto

lemma sortBy_sort_key:
  fixes f :: "'a \<Rightarrow> int"
  assumes "\<forall>x \<in> set xs. \<forall>y \<in> set xs. (c x y \<le> 0) = (f x \<le> f y)"
  shows "sortBy c xs = sort_key f xs"
  using assms
proof (induction xs)
  case Nil
  show ?case by (simp add: sortBy_def)
next
  case (Cons x xs)
  then have ih: "sortBy c xs = sort_key f xs" by simp
  have "insertBy c x (sort_key f xs) = insort_key f x (sort_key f xs)"
    by (rule insertBy_insort_key) (use Cons.prems in simp)
  then show ?case using ih by (simp add: sortBy_def)
qed

section \<open>C1: profit and loss per leg, summed over the enabled legs\<close>

text \<open>
  Claim C1. For every structure and market snapshot the PnL aggregator takes, for each
  enabled leg, \<open>priceDiff = currentPrice - tradePrice\<close>, \<open>pointsPnl = priceDiff * quantity\<close>
  (one signed expression for long and short legs), \<open>grossPnl = pointsPnl * multiplier\<close>,
  \<open>commissions = (openingCommission + closingCommission) * |quantity|\<close> and
  \<open>netPnl = grossPnl - commissions\<close>, and sums them over the enabled legs; a leg with
  \<open>enabled = false\<close> adds nothing to any total. The list view
  (\<open>calculatePnlInfoForStructure\<close>) sums net profit and points in its \<open>reduce\<close> and
  returns that sum whenever the structure is Active or carries no realized figure; the
  detail view (\<open>totals\<close>) sums points, gross, commissions and net profit. The detail view
  finds a leg's \<open>enabled\<close> flag again through the leg's id, so its part is stated for legs
  with pairwise different ids.
\<close>

theorem C1_pnl_aggregation:
  "netPnl (fst (pnlCalculated K env s md)) =
     (\<Sum>l \<leftarrow> filter (\<lambda>l. \<not> isDisabled l) (legs s).
        (fst (listLegPrice K env md l) - tradePrice l) * quantity l * multiplier s
        - (orZero (openingCommission l) + orZero (closingCommission l)) * \<bar>quantity l\<bar>)
   \<and> totalPoints (fst (pnlCalculated K env s md)) =
     (\<Sum>l \<leftarrow> filter (\<lambda>l. \<not> isDisabled l) (legs s).
        (fst (listLegPrice K env md l) - tradePrice l) * quantity l)
   \<and> (status s = Active \<or> realizedPnl s = None \<longrightarrow>
        calculatePnlInfoForStructure K env s md = fst (pnlCalculated K env s md))
   \<and> (distinct (map legId (legs (localStructure st))) \<longrightarrow>
        t_pnlPoints (totals K env st) =
          (\<Sum>l \<leftarrow> filter (\<lambda>l. \<not> isDisabled l) (legs (localStructure st)).
             (a_currentPrice (fst (legAnalysisOf K env st l)) - tradePrice l) * quantity l)
      \<and> t_gross (totals K env st) =
          (\<Sum>l \<leftarrow> filter (\<lambda>l. \<not> isDisabled l) (legs (localStructure st)).
             (a_currentPrice (fst (legAnalysisOf K env st l)) - tradePrice l) * quantity l
               * multiplier (localStructure st))
      \<and> t_comm (totals K env st) =
          (\<Sum>l \<leftarrow> filter (\<lambda>l. \<not> isDisabled l) (legs (localStructure st)).
             (orZero (openingCommission l) + orZero (closingCommission l)) * \<bar>quantity l\<bar>)
      \<and> t_pnl (totals K env st) =
          (\<Sum>l \<leftarrow> filter (\<lambda>l. \<not> isDisabled l) (legs (localStructure st)).
             (a_currentPrice (fst (legAnalysisOf K env st l)) - tradePrice l) * quantity l
               * multiplier (localStructure st)
             - (orZero (openingCommission l) + orZero (closingCommission l)) * \<bar>quantity l\<bar>))"
proof -
  have list: "pnlCalculated K env s md =
     (\<lparr> netPnl = (\<Sum>l \<leftarrow> filter (\<lambda>l. \<not> isDisabled l) (legs s).
              legNetPnl (multiplier s) (fst (listLegPrice K env md l)) l),
        totalPoints = (\<Sum>l \<leftarrow> filter (\<lambda>l. \<not> isDisabled l) (legs s).
              legPnlPoints (fst (listLegPrice K env md l)) l) \<rparr>,
      concat (map (\<lambda>l. snd (listLegPrice K env md l))
                  (filter (\<lambda>l. \<not> isDisabled l) (legs s))))"
    unfolding pnlCalculated_def pnlStep_foldl by simp
  have ret: "status s = Active \<or> realizedPnl s = None \<longrightarrow>
        calculatePnlInfoForStructure K env s md = fst (pnlCalculated K env s md)"
    by (auto simp add: calculatePnlInfoForStructure_def Let_def split: option.splits)
  have detail: "t_pnlPoints (totals K env st) =
          (\<Sum>l \<leftarrow> filter (\<lambda>l. \<not> isDisabled l) (legs (localStructure st)).
             (a_currentPrice (fst (legAnalysisOf K env st l)) - tradePrice l) * quantity l)
      \<and> t_gross (totals K env st) =
          (\<Sum>l \<leftarrow> filter (\<lambda>l. \<not> isDisabled l) (legs (localStructure st)).
             (a_currentPrice (fst (legAnalysisOf K env st l)) - tradePrice l) * quantity l
               * multiplier (localStructure st))
      \<and> t_comm (totals K env st) =
          (\<Sum>l \<leftarrow> filter (\<lambda>l. \<not> isDisabled l) (legs (localStructure st)).
             (orZero (openingCommission l) + orZero (closingCommission l)) * \<bar>quantity l\<bar>)
      \<and> t_pnl (totals K env st) =
          (\<Sum>l \<leftarrow> filter (\<lambda>l. \<not> isDisabled l) (legs (localStructure st)).
             (a_currentPrice (fst (legAnalysisOf K env st l)) - tradePrice l) * quantity l
               * multiplier (localStructure st)
             - (orZero (openingCommission l) + orZero (closingCommission l)) * \<bar>quantity l\<bar>)"
    if d: "distinct (map legId (legs (localStructure st)))"
  proof -
    have 1: "t_pnlPoints (totals K env st) =
       (\<Sum>l \<leftarrow> filter (\<lambda>l. \<not> (isDisabled l \<or> False)) (legs (localStructure st)).
           a_pnlPoints (fst (legAnalysisOf K env st l)))"
      by (rule totals_field [OF d, where P = "\<lambda>_. False"])
         (simp_all add: totalsStep_fields zeroTotals_def)
    have 2: "t_gross (totals K env st) =
       (\<Sum>l \<leftarrow> filter (\<lambda>l. \<not> (isDisabled l \<or> False)) (legs (localStructure st)).
           a_grossPnl (fst (legAnalysisOf K env st l)))"
      by (rule totals_field [OF d, where P = "\<lambda>_. False"])
         (simp_all add: totalsStep_fields zeroTotals_def)
    have 3: "t_comm (totals K env st) =
       (\<Sum>l \<leftarrow> filter (\<lambda>l. \<not> (isDisabled l \<or> False)) (legs (localStructure st)).
           a_commissions (fst (legAnalysisOf K env st l)))"
      by (rule totals_field [OF d, where P = "\<lambda>_. False"])
         (simp_all add: totalsStep_fields zeroTotals_def)
    have 4: "t_pnl (totals K env st) =
       (\<Sum>l \<leftarrow> filter (\<lambda>l. \<not> (isDisabled l \<or> False)) (legs (localStructure st)).
           a_netPnl (fst (legAnalysisOf K env st l)))"
      by (rule totals_field [OF d, where P = "\<lambda>_. False"])
         (simp_all add: totalsStep_fields zeroTotals_def)
    show ?thesis
      unfolding 1 2 3 4 by (simp add: legAnalysisOf_def Let_def)
  qed
  show ?thesis
    using ret detail by (simp add: list legNetPnl_def legPnlPoints_def legCommissions_def)
qed

theorem C1_pnl_aggregation_witness:
  "(status sampleActive = Active \<or> realizedPnl sampleActive = None)
   \<and> distinct (map legId (legs (localStructure sampleDetail)))
   \<and> calculatePnlInfoForStructure sampleKernel sampleEnv sampleActive sampleMarket
       = \<lparr> netPnl = - 660, totalPoints = - 130 \<rparr>
   \<and> t_pnl (totals sampleKernel sampleEnv sampleDetail) = - 660
   \<and> t_pnlPoints (totals sampleKernel sampleEnv sampleDetail) = - 130
   \<and> t_gross (totals sampleKernel sampleEnv sampleDetail) = - 650
   \<and> t_comm (totals sampleKernel sampleEnv sampleDetail) = 10"
proof -
  have d: "distinct (map legId (legs (localStructure sampleDetail)))"
    and a: "status sampleActive = Active"
    by (simp_all add: sample_defs)
  have ev: "filter (\<lambda>l. \<not> isDisabled l) (legs sampleActive) = [legOpen, legClosed]"
    "filter (\<lambda>l. \<not> isDisabled l) (legs (localStructure sampleDetail)) = [legOpen, legClosed]"
    by (simp_all add: sample_defs isDisabled_def)
  have p: "fst (listLegPrice sampleKernel sampleEnv sampleMarket legOpen) = 20"
    "fst (listLegPrice sampleKernel sampleEnv sampleMarket legClosed) = 50"
    "a_currentPrice (fst (legAnalysisOf sampleKernel sampleEnv sampleDetail legOpen)) = 20"
    "a_currentPrice (fst (legAnalysisOf sampleKernel sampleEnv sampleDetail legClosed)) = 50"
    by (simp_all add: sample_defs listLegPrice_def openLegPrice_def listArgs_def bsPrice_def
          legAnalysisOf_def detailArgs_def volatilityToUse_def storeLegOf_def Let_def)
  have q: "tradePrice legOpen = 100" "quantity legOpen = 2" "tradePrice legClosed = 80"
    "quantity legClosed = - 1" "multiplier sampleActive = 5"
    "multiplier (localStructure sampleDetail) = 5"
    "orZero (openingCommission legOpen) = 2" "orZero (closingCommission legOpen) = 2"
    "orZero (openingCommission legClosed) = 2" "orZero (closingCommission legClosed) = 0"
    by (simp_all add: sample_defs orZero_def)
  show ?thesis
    using C1_pnl_aggregation [of sampleKernel sampleEnv sampleActive sampleMarket sampleDetail,
            unfolded ev] d a
    by (simp add: p q prod_eq_iff)
qed

section \<open>C2: a closed leg is valued at its closing price\<close>

text \<open>
  Claim C2 states that, for a leg whose \<open>closingPrice\<close> is set and non-zero, the list-view
  aggregation, the detail-view analysis and the live refresh all use the closing price as
  the leg's current price and never construct a kernel object for it. The detail view
  constructs one for every leg before it looks at the closing price (the fair value and
  the Greeks are fields of every leg's analysis record): for the closed sample leg the log
  of constructions is not empty.
\<close>

theorem C2_detail_view_contacts_kernel_counterexample:
  "closingPrice legClosed = Some 50
   \<and> snd (legAnalysisOf sampleKernel sampleEnv sampleDetail legClosed)
       = [(24500, 24000, 1 / 10, 261 / 10000, 1 / 5)]"
  by (simp add: sample_defs detail_defs Let_def)

text \<open>
  The live refresh decides by the closing date, not by the closing price: a leg with a
  closing price and no closing date is priced again by the kernel.
\<close>

lemma refresh_reprices_leg_without_closing_date:
  "refreshLeg sampleKernel sampleEnv 24600 (3 / 10) (261 / 10000)
       (legClosed \<lparr> closingDate := None \<rparr>)
     = (legClosed \<lparr> closingDate := None, currentPrice := Some 30, currentIv := Some (3 / 10) \<rparr>,
        [(24600, 24000, 1 / 10, 261 / 10000, 3 / 10)])"
  by (simp add: sample_defs refreshLeg_def truthyStr_def bsPrice_def Let_def)

text \<open>
  Claim C2 as amended. For a leg whose closing price is set and non-zero, the list view
  takes the closing price as current price and constructs no kernel object; the detail
  view takes the closing price as current price and computes the leg's profit from it,
  and still constructs one kernel object for the leg, with the leg's arguments; the live
  refresh returns the leg unchanged, with no kernel object, when the leg carries a closing
  date.
\<close>

theorem C2_closed_leg_frozen:
  "closingPrice leg = Some p \<Longrightarrow> p \<noteq> 0 \<Longrightarrow>
     listLegPrice K env md leg = (p, [])
   \<and> a_currentPrice (fst (legAnalysisOf K env st leg)) = p
   \<and> a_netPnl (fst (legAnalysisOf K env st leg)) =
       (p - tradePrice leg) * quantity leg * multiplier (localStructure st)
       - (orZero (openingCommission leg) + orZero (closingCommission leg)) * \<bar>quantity leg\<bar>
   \<and> snd (legAnalysisOf K env st leg) = [detailArgs env st leg]
   \<and> (truthyStr (closingDate leg) \<longrightarrow> refreshLeg K env spot vol rate leg = (leg, []))"
  by (simp add: listLegPrice_def legAnalysisOf_def Let_def refreshLeg_def)

theorem C2_closed_leg_frozen_witness:
  "closingPrice legClosed = Some 50 \<and> (50::real) \<noteq> 0 \<and> truthyStr (closingDate legClosed)
   \<and> listLegPrice sampleKernel sampleEnv sampleMarket legClosed = (50, [])
   \<and> a_currentPrice (fst (legAnalysisOf sampleKernel sampleEnv sampleDetail legClosed)) = 50
   \<and> a_netPnl (fst (legAnalysisOf sampleKernel sampleEnv sampleDetail legClosed)) = 148
   \<and> snd (legAnalysisOf sampleKernel sampleEnv sampleDetail legClosed)
       = [(24500, 24000, 1 / 10, 261 / 10000, 1 / 5)]
   \<and> refreshLeg sampleKernel sampleEnv 24600 (3 / 10) (261 / 10000) legClosed = (legClosed, [])"
proof -
  have h: "closingPrice legClosed = Some 50" "(50::real) \<noteq> 0"
    by (simp_all add: legClosed_def)
  have t: "truthyStr (closingDate legClosed)"
    by (simp add: legClosed_def truthyStr_def)
  show ?thesis
    using C2_closed_leg_frozen [OF h, of sampleKernel sampleEnv sampleMarket sampleDetail
                                 24600 "3 / 10" "261 / 10000"] h t
    by (simp add: sample_defs orZero_def detailArgs_def volatilityToUse_def storeLegOf_def)
qed

section \<open>C3: a closed structure reports its realized profit\<close>

text \<open>
  Claim C3. For a structure whose status is Closed and whose \<open>realizedPnl\<close> is present,
  the PnL aggregator returns the frozen \<open>realizedPnl\<close> as \<open>netPnl\<close>, not the sum over its
  legs, and still returns \<open>totalPoints\<close> as recomputed from the enabled legs.
\<close>

theorem C3_closed_structure_reports_realized:
  "status s = Closed \<Longrightarrow> realizedPnl s = Some r \<Longrightarrow>
     calculatePnlInfoForStructure K env s md =
       \<lparr> netPnl = r,
         totalPoints = (\<Sum>l \<leftarrow> filter (\<lambda>l. \<not> isDisabled l) (legs s).
                          (fst (listLegPrice K env md l) - tradePrice l) * quantity l) \<rparr>"
  by (simp add: calculatePnlInfoForStructure_def pnlCalculated_def pnlStep_foldl
        legPnlPoints_def)

theorem C3_closed_structure_reports_realized_witness:
  "status sampleClosed = Closed \<and> realizedPnl sampleClosed = Some (- 241 / 2)
   \<and> calculatePnlInfoForStructure sampleKernel sampleEnv sampleClosed sampleMarket =
       \<lparr> netPnl = - 241 / 2, totalPoints = 30 \<rparr>
   \<and> netPnl (fst (pnlCalculated sampleKernel sampleEnv sampleClosed sampleMarket)) = 148"
proof -
  have h1: "status sampleClosed = Closed" and h2: "realizedPnl sampleClosed = Some (- 241 / 2)"
    by (simp_all add: sampleClosed_def)
  show ?thesis
    using C3_closed_structure_reports_realized [OF h1 h2, of sampleKernel sampleEnv sampleMarket]
    by (simp add: sample_defs list_defs Let_def)
qed

section \<open>C4: Greeks are summed over open, enabled legs\<close>

text \<open>
  Claim C4 states that the aggregated Greeks are the sums of the per-leg delta, gamma,
  theta and vega times quantity over the legs that are enabled and not closed, and names
  the detail view's totals among its sources. There each leg's delta is
  \<open>greeks.delta * leg.quantity * 100\<close> (the source marks it "Scaled by 100"), so the
  detail view's total delta is not the sum of delta times quantity: on the sample it is
  104 against 26/25.
\<close>

theorem C4_detail_delta_scaled_counterexample:
  "filter (\<lambda>l. \<not> (isDisabled l \<or> isLegClosed l)) (legs (localStructure sampleDetail))
     = [legOpen]
   \<and> delta (bsGreeks sampleKernel (optionType legOpen)
              (detailArgs sampleEnv sampleDetail legOpen)) * quantity legOpen = 26 / 25
   \<and> t_delta (totals sampleKernel sampleEnv sampleDetail) = 104"
proof -
  have d: "distinct (map legId (legs (localStructure sampleDetail)))"
    by (simp add: sample_defs)
  have ev: "filter (\<lambda>l. \<not> (isDisabled l \<or> isLegClosed l)) (legs (localStructure sampleDetail))
              = [legOpen]"
    by (simp add: sample_defs isDisabled_def isLegClosed_def)
  have 1: "t_delta (totals sampleKernel sampleEnv sampleDetail) =
       (\<Sum>l \<leftarrow> filter (\<lambda>l. \<not> (isDisabled l \<or> isLegClosed l))
                      (legs (localStructure sampleDetail)).
           a_delta (fst (legAnalysisOf sampleKernel sampleEnv sampleDetail l)))"
    by (rule totals_field [OF d, where P = a_isClosed])
       (simp_all add: totalsStep_fields zeroTotals_def analysis_closed)
  have g: "delta (bsGreeks sampleKernel (optionType legOpen)
              (detailArgs sampleEnv sampleDetail legOpen)) * quantity legOpen = 26 / 25"
    "a_delta (fst (legAnalysisOf sampleKernel sampleEnv sampleDetail legOpen)) = 104"
    by (simp_all add: sample_defs detailArgs_def bsGreeks_def volatilityToUse_def
          storeLegOf_def legAnalysisOf_def Let_def)
  show ?thesis unfolding 1 ev by (simp add: g ev)
qed

text \<open>
  Claim C4 as amended. The list view's aggregated Greeks are the sums of the per-leg delta,
  gamma, theta and vega times quantity over the legs that are enabled and not closed; a
  closed or disabled leg adds nothing. At the portfolio level theta and vega are scaled by
  each structure's multiplier (the unscaled sums are kept as \<open>thetaPoints\<close> and
  \<open>vegaPoints\<close>). The detail view's totals run over the same legs only (stated for legs
  with pairwise different ids): gamma, \<open>thetaPoints\<close> and \<open>vegaPoints\<close> are the sums of
  the Greek times quantity, theta and vega are those sums times the multiplier, and delta
  is the sum of delta times quantity times 100.
\<close>

theorem C4_greeks_open_enabled_only:
  "calculateTotalGreeks K env s md =
     \<lparr> delta = (\<Sum>l \<leftarrow> filter (\<lambda>l. \<not> (isDisabled l \<or> isLegClosed l)) (legs s).
          delta (bsGreeks K (optionType l) (listArgs env md l)) * quantity l),
       gamma = (\<Sum>l \<leftarrow> filter (\<lambda>l. \<not> (isDisabled l \<or> isLegClosed l)) (legs s).
          gamma (bsGreeks K (optionType l) (listArgs env md l)) * quantity l),
       theta = (\<Sum>l \<leftarrow> filter (\<lambda>l. \<not> (isDisabled l \<or> isLegClosed l)) (legs s).
          theta (bsGreeks K (optionType l) (listArgs env md l)) * quantity l),
       vega = (\<Sum>l \<leftarrow> filter (\<lambda>l. \<not> (isDisabled l \<or> isLegClosed l)) (legs s).
          vega (bsGreeks K (optionType l) (listArgs env md l)) * quantity l) \<rparr>
   \<and> totalPortfolioGreeks K env md ss =
     \<lparr> p_delta = (\<Sum>s \<leftarrow> ss. delta (calculateTotalGreeks K env s md)),
       p_gamma = (\<Sum>s \<leftarrow> ss. gamma (calculateTotalGreeks K env s md)),
       p_theta = (\<Sum>s \<leftarrow> ss. theta (calculateTotalGreeks K env s md) * multiplier s),
       p_vega = (\<Sum>s \<leftarrow> ss. vega (calculateTotalGreeks K env s md) * multiplier s),
       p_thetaPoints = (\<Sum>s \<leftarrow> ss. theta (calculateTotalGreeks K env s md)),
       p_vegaPoints = (\<Sum>s \<leftarrow> ss. vega (calculateTotalGreeks K env s md)) \<rparr>
   \<and> (distinct (map legId (legs (localStructure st))) \<longrightarrow>
        t_delta (totals K env st) =
          (\<Sum>l \<leftarrow> filter (\<lambda>l. \<not> (isDisabled l \<or> isLegClosed l)) (legs (localStructure st)).
             delta (bsGreeks K (optionType l) (detailArgs env st l)) * quantity l * 100)
      \<and> t_gamma (totals K env st) =
          (\<Sum>l \<leftarrow> filter (\<lambda>l. \<not> (isDisabled l \<or> isLegClosed l)) (legs (localStructure st)).
             gamma (bsGreeks K (optionType l) (detailArgs env st l)) * quantity l)
      \<and> t_thetaPoints (totals K env st) =
          (\<Sum>l \<leftarrow> filter (\<lambda>l. \<not> (isDisabled l \<or> isLegClosed l)) (legs (localStructure st)).
             theta (bsGreeks K (optionType l) (detailArgs env st l)) * quantity l)
      \<and> t_vegaPoints (totals K env st) =
          (\<Sum>l \<leftarrow> filter (\<lambda>l. \<not> (isDisabled l \<or> isLegClosed l)) (legs (localStructure st)).
             vega (bsGreeks K (optionType l) (detailArgs env st l)) * quantity l)
      \<and> t_theta (totals K env st) =
          (\<Sum>l \<leftarrow> filter (\<lambda>l. \<not> (isDisabled l \<or> isLegClosed l)) (legs (localStructure st)).
             theta (bsGreeks K (optionType l) (detailArgs env st l)) * quantity l
               * multiplier (localStructure st))
      \<and> t_vega (totals K env st) =
          (\<Sum>l \<leftarrow> filter (\<lambda>l. \<not> (isDisabled l \<or> isLegClosed l)) (legs (localStructure st)).
             vega (bsGreeks K (optionType l) (detailArgs env st l)) * quantity l
               * multiplier (localStructure st)))"
proof -
  have port: "totalPortfolioGreeks K env md ss =
     \<lparr> p_delta = (\<Sum>s \<leftarrow> ss. delta (calculateTotalGreeks K env s md)),
       p_gamma = (\<Sum>s \<leftarrow> ss. gamma (calculateTotalGreeks K env s md)),
       p_theta = (\<Sum>s \<leftarrow> ss. theta (calculateTotalGreeks K env s md) * multiplier s),
       p_vega = (\<Sum>s \<leftarrow> ss. vega (calculateTotalGreeks K env s md) * multiplier s),
       p_thetaPoints = (\<Sum>s \<leftarrow> ss. theta (calculateTotalGreeks K env s md)),
       p_vegaPoints = (\<Sum>s \<leftarrow> ss. vega (calculateTotalGreeks K env s md)) \<rparr>"
    unfolding totalPortfolioGreeks_def portfolio_foldl by simp
  have detail: "t_delta (totals K env st) =
          (\<Sum>l \<leftarrow> filter (\<lambda>l. \<not> (isDisabled l \<or> isLegClosed l)) (legs (localStructure st)).
             delta (bsGreeks K (optionType l) (detailArgs env st l)) * quantity l * 100)
      \<and> t_gamma (totals K env st) =
          (\<Sum>l \<leftarrow> filter (\<lambda>l. \<not> (isDisabled l \<or> isLegClosed l)) (legs (localStructure st)).
             gamma (bsGreeks K (optionType l) (detailArgs env st l)) * quantity l)
      \<and> t_thetaPoints (totals K env st) =
          (\<Sum>l \<leftarrow> filter (\<lambda>l. \<not> (isDisabled l \<or> isLegClosed l)) (legs (localStructure st)).
             theta (bsGreeks K (optionType l) (detailArgs env st l)) * quantity l)
      \<and> t_vegaPoints (totals K env st) =
          (\<Sum>l \<leftarrow> filter (\<lambda>l. \<not> (isDisabled l \<or> isLegClosed l)) (legs (localStructure st)).
             vega (bsGreeks K (optionType l) (detailArgs env st l)) * quantity l)
      \<and> t_theta (totals K env st) =
          (\<Sum>l \<leftarrow> filter (\<lambda>l. \<not> (isDisabled l \<or> isLegClosed l)) (legs (localStructure st)).
             theta (bsGreeks K (optionType l) (detailArgs env st l)) * quantity l
               * multiplier (localStructure st))
      \<and> t_vega (totals K env st) =
          (\<Sum>l \<leftarrow> filter (\<lambda>l. \<not> (isDisabled l \<or> isLegClosed l)) (legs (localStructure st)).
             vega (bsGreeks K (optionType l) (detailArgs env st l)) * quantity l
               * multiplier (localStructure st))"
    if d: "distinct (map legId (legs (localStructure st)))"
  proof -
    note tf = totals_field [OF d, where P = a_isClosed and Q = isLegClosed and K = K and env = env]
    have 1: "t_delta (totals K env st) =
       (\<Sum>l \<leftarrow> filter (\<lambda>l. \<not> (isDisabled l \<or> isLegClosed l)) (legs (localStructure st)).
           a_delta (fst (legAnalysisOf K env st l)))"
      by (rule tf) (simp_all add: totalsStep_fields zeroTotals_def analysis_closed)
    have 2: "t_gamma (totals K env st) =
       (\<Sum>l \<leftarrow> filter (\<lambda>l. \<not> (isDisabled l \<or> isLegClosed l)) (legs (localStructure st)).
           a_gamma (fst (legAnalysisOf K env st l)))"
      by (rule tf) (simp_all add: totalsStep_fields zeroTotals_def analysis_closed)
    have 3: "t_thetaPoints (totals K env st) =
       (\<Sum>l \<leftarrow> filter (\<lambda>l. \<not> (isDisabled l \<or> isLegClosed l)) (legs (localStructure st)).
           a_thetaPoints (fst (legAnalysisOf K env st l)))"
      by (rule tf) (simp_all add: totalsStep_fields zeroTotals_def analysis_closed)
    have 4: "t_vegaPoints (totals K env st) =
       (\<Sum>l \<leftarrow> filter (\<lambda>l. \<not> (isDisabled l \<or> isLegClosed l)) (legs (localStructure st)).
           a_vegaPoints (fst (legAnalysisOf K env st l)))"
      by (rule tf) (simp_all add: totalsStep_fields zeroTotals_def analysis_closed)
    have 5: "t_theta (totals K env st) =
       (\<Sum>l \<leftarrow> filter (\<lambda>l. \<not> (isDisabled l \<or> isLegClosed l)) (legs (localStructure st)).
           a_theta (fst (legAnalysisOf K env st l)))"
      by (rule tf) (simp_all add: totalsStep_fields zeroTotals_def analysis_closed)
    have 6: "t_vega (totals K env st) =
       (\<Sum>l \<leftarrow> filter (\<lambda>l. \<not> (isDisabled l \<or> isLegClosed l)) (legs (localStructure st)).
           a_vega (fst (legAnalysisOf K env st l)))"
      by (rule tf) (simp_all add: totalsStep_fields zeroTotals_def analysis_closed)
    have fields:
      "a_delta (fst (legAnalysisOf K env st l)) =
         delta (bsGreeks K (optionType l) (detailArgs env st l)) * quantity l * 100"
      "a_gamma (fst (legAnalysisOf K env st l)) =
         gamma (bsGreeks K (optionType l) (detailArgs env st l)) * quantity l"
      "a_thetaPoints (fst (legAnalysisOf K env st l)) =
         theta (bsGreeks K (optionType l) (detailArgs env st l)) * quantity l"
      "a_vegaPoints (fst (legAnalysisOf K env st l)) =
         vega (bsGreeks K (optionType l) (detailArgs env st l)) * quantity l"
      "a_theta (fst (legAnalysisOf K env st l)) =
         theta (bsGreeks K (optionType l) (detailArgs env st l)) * quantity l
           * multiplier (localStructure st)"
      "a_vega (fst (legAnalysisOf K env st l)) =
         vega (bsGreeks K (optionType l) (detailArgs env st l)) * quantity l
           * multiplier (localStructure st)"
      for l
      by (simp_all add: legAnalysisOf_def Let_def)
    show ?thesis
      unfolding 1 2 3 4 5 6 fields by simp
  qed
  show ?thesis
    using port detail calculateTotalGreeks_sum [of K env s md] by blast
qed

theorem C4_greeks_open_enabled_only_witness:
  "distinct (map legId (legs (localStructure sampleDetail)))
   \<and> calculateTotalGreeks sampleKernel sampleEnv sampleActive sampleMarket =
       \<lparr> delta = 26 / 25, gamma = 1 / 500, theta = - 10, vega = 40 \<rparr>
   \<and> calculateTotalGreeks sampleKernel sampleEnv sampleClosed sampleMarket =
       \<lparr> delta = 0, gamma = 0, theta = 0, vega = 0 \<rparr>
   \<and> totalPortfolioGreeks sampleKernel sampleEnv sampleMarket [sampleActive] =
       \<lparr> p_delta = 26 / 25, p_gamma = 1 / 500, p_theta = - 50, p_vega = 200,
         p_thetaPoints = - 10, p_vegaPoints = 40 \<rparr>
   \<and> t_delta (totals sampleKernel sampleEnv sampleDetail) = 104
   \<and> t_gamma (totals sampleKernel sampleEnv sampleDetail) = 1 / 500
   \<and> t_thetaPoints (totals sampleKernel sampleEnv sampleDetail) = - 10
   \<and> t_vegaPoints (totals sampleKernel sampleEnv sampleDetail) = 40
   \<and> t_theta (totals sampleKernel sampleEnv sampleDetail) = - 50
   \<and> t_vega (totals sampleKernel sampleEnv sampleDetail) = 200"
proof -
  have d: "distinct (map legId (legs (localStructure sampleDetail)))"
    by (simp add: sample_defs)
  have ev: "filter (\<lambda>l. \<not> (isDisabled l \<or> isLegClosed l)) (legs sampleActive) = [legOpen]"
    "filter (\<lambda>l. \<not> (isDisabled l \<or> isLegClosed l)) (legs sampleClosed) = []"
    "filter (\<lambda>l. \<not> (isDisabled l \<or> isLegClosed l)) (legs (localStructure sampleDetail)) = [legOpen]"
    by (simp_all add: sample_defs isDisabled_def isLegClosed_def)
  have g: "bsGreeks sampleKernel (optionType legOpen) (listArgs sampleEnv sampleMarket legOpen)
             = \<lparr> delta = 13 / 25, gamma = 1 / 1000, theta = - 5, vega = 20 \<rparr>"
    "bsGreeks sampleKernel (optionType legOpen) (detailArgs sampleEnv sampleDetail legOpen)
             = \<lparr> delta = 13 / 25, gamma = 1 / 1000, theta = - 5, vega = 20 \<rparr>"
    by (simp_all add: sample_defs listArgs_def detailArgs_def bsGreeks_def volatilityToUse_def
          storeLegOf_def)
  have q: "quantity legOpen = 2" "multiplier (localStructure sampleDetail) = 5"
    "multiplier sampleActive = 5"
    by (simp_all add: sample_defs)
  show ?thesis
    using C4_greeks_open_enabled_only [of sampleKernel sampleEnv sampleActive sampleMarket
            "[sampleActive]" sampleDetail, unfolded ev]
          C4_greeks_open_enabled_only [of sampleKernel sampleEnv sampleClosed sampleMarket
            "[]" sampleDetail, unfolded ev] d
    by (simp add: g q)
qed

section \<open>C5: intrinsic value at or after expiry\<close>




section \<open>C6: the price grid of the payoff chart\<close>

lemma tiny_values:
  "xMin [tinyLeg] tinyMarket 20 = 9" "xMax [tinyLeg] tinyMarket 20 = 11"
  "maxStrike [tinyLeg] tinyMarket + padding [tinyLeg] tinyMarket 20 = 1326 / 125"
  by (simp_all add: xMin_def xMax_def minStrike_def maxStrike_def padding_def spread_def
        tinyLeg_def tinyMarket_def legOpen_def)

lemma deep_values:
  "xMin [deepLeg] sampleMarket 20 = 10148" "xMax [deepLeg] sampleMarket 20 = 31952"
  "maxStrike [deepLeg] sampleMarket + padding [deepLeg] sampleMarket 20 = 31952"
  "criticalPoints [deepLeg] sampleMarket = [24500, 17600, 35199 / 2, 35201 / 2]"
  by (simp_all add: xMin_def xMax_def minStrike_def maxStrike_def padding_def spread_def
        criticalPoints_def deepLeg_def sampleMarket_def legOpen_def)

lemma tiny_grid:
  assumes "ro 0 = 0" "\<forall>i. \<bar>ro i\<bar> \<le> 1 / 100"
  shows "chartPoints ro [tinyLeg] tinyMarket 20 = [9]"
proof -
  have "uniquePoints (mergedPoints ro 9 11 (criticalPoints [tinyLeg] tinyMarket)) = [9]"
    by (rule mergedPoints_collapses [where e = "1 / 100"]) (use assms in simp_all)
  then show ?thesis by (simp add: chartPoints_def allPoints_def tiny_values)
qed

lemma deep_grid:
  assumes "ro 0 = 0" "0 < ro 150" "\<forall>i < 150. ro i < 1"
  shows "chartPoints ro [deepLeg] sampleMarket 20 \<noteq> []
         \<and> last (chartPoints ro [deepLeg] sampleMarket 20) < 31952"
proof -
  let ?A = "mergedPoints ro 10148 31952 (criticalPoints [deepLeg] sampleMarket)"
  have cp: "chartPoints ro [deepLeg] sampleMarket 20 = uniquePoints ?A"
    by (simp add: chartPoints_def allPoints_def deep_values)
  have ne: "uniquePoints ?A \<noteq> []"
    using mergedPoints_hd [of 10148 31952 ro "criticalPoints [deepLeg] sampleMarket"]
          uniquePoints_hd [of ?A] assms(1) by simp
  then have "last (uniquePoints ?A) \<in> set (uniquePoints ?A)" by simp
  then have mem: "last (uniquePoints ?A) \<in> set ?A" using uniquePoints_subset by blast
  have small: "\<forall>i < 150. ro i < (31952 - 10148) / 150"
  proof (intro allI impI)
    fix i :: nat assume "i < 150"
    with assms(3) have "ro i < 1" by blast
    then show "ro i < (31952 - 10148) / 150" by simp
  qed
  have "last (uniquePoints ?A) < 31952"
    by (rule mergedPoints_below_hi [OF _ assms(2) small _ mem]) (simp_all add: deep_values)
  with ne show ?thesis by (simp add: cp)
qed

text \<open>
  Claim C6 states that, for every non-empty leg list, the grid is strictly increasing and
  fully covers the padded domain from \<open>minStrike - padding\<close> to \<open>maxStrike + padding\<close>.
  The grid is strictly increasing (lemma \<open>chartPoints_increasing\<close>), but it misses the
  upper end of the padded domain in two ways. First, the loop that drops close points
  compares a point with its predecessor in the merged list, kept or not; when the base
  step is well below 0.1 every point after the first is dropped: for an underlying at 10
  with one strike at 10 the grid is the single point 9, and the padded domain ends at
  10.608. Second, the last base point \<open>xMin + 150 * step\<close> is tested against \<open>xMax\<close> as
  computed; when rounding puts it above \<open>xMax\<close> the filter drops it: for a spot of 24500
  and a strike of 17600 at zoom 20, where doubles give \<open>31952.000000000004\<close> against
  \<open>xMax = 31952\<close>, every grid point is below 31952, the end of the padded domain.
\<close>

theorem C6_grid_misses_domain_end:
  "(ro 0 = 0 \<and> (\<forall>i. \<bar>ro i\<bar> \<le> 1 / 100) \<longrightarrow> chartPoints ro [tinyLeg] tinyMarket 20 = [9])
   \<and> maxStrike [tinyLeg] tinyMarket + padding [tinyLeg] tinyMarket 20 = 1326 / 125
   \<and> (ro 0 = 0 \<and> 0 < ro 150 \<and> (\<forall>i < 150. ro i < 1) \<longrightarrow>
        chartPoints ro [deepLeg] sampleMarket 20 \<noteq> []
        \<and> last (chartPoints ro [deepLeg] sampleMarket 20) < 31952)
   \<and> maxStrike [deepLeg] sampleMarket + padding [deepLeg] sampleMarket 20 = 31952"
  using tiny_grid [of ro] deep_grid [of ro] by (simp add: tiny_values deep_values)

theorem C6_grid_misses_domain_end_witness:
  "[tinyLeg] \<noteq> [] \<and> [deepLeg] \<noteq> []
   \<and> chartPoints (\<lambda>i. 0) [tinyLeg] tinyMarket 20 = [9]
   \<and> last (chartPoints (\<lambda>i. 0) [tinyLeg] tinyMarket 20)
       < maxStrike [tinyLeg] tinyMarket + padding [tinyLeg] tinyMarket 20
   \<and> doubleRoundoff 0 = 0 \<and> doubleRoundoff 150 = 1 / 2 ^ 38
   \<and> chartPoints doubleRoundoff [deepLeg] sampleMarket 20 \<noteq> []
   \<and> last (chartPoints doubleRoundoff [deepLeg] sampleMarket 20)
       < maxStrike [deepLeg] sampleMarket + padding [deepLeg] sampleMarket 20"
proof -
  have d: "doubleRoundoff 0 = 0" "doubleRoundoff 150 = 1 / 2 ^ 38" "0 < doubleRoundoff 150"
    "\<forall>i < 150. doubleRoundoff i < 1"
    by (simp_all add: doubleRoundoff_def)
  show ?thesis
    using C6_grid_misses_domain_end [of "\<lambda>i. 0"] C6_grid_misses_domain_end [of doubleRoundoff] d
    by (simp add: tiny_values deep_values)
qed

section \<open>C7: the payoff sampler on degenerate inputs\<close>

text \<open>
  Claim C7. Given an empty leg list the payoff sampler returns the empty sequence; given a
  Closed structure with \<open>realizedPnl\<close> present it returns, for every sampled price, the
  expiry payoff and the simulated payoff both equal to \<open>realizedPnl\<close>.
\<close>

theorem C7_sampler_degenerate_inputs:
  "(c_legs props = [] \<longrightarrow> chartData K env props viewRange simTimePercent = [])
   \<and> (structureStatus props = Some Closed \<and> c_realizedPnl props = Some r \<longrightarrow>
        chartData K env props viewRange simTimePercent =
          map (\<lambda>s. \<lparr> cp_spot = s, pnlExpiry = r, pnlSim = r \<rparr>)
              (chartPoints (baseRoundoff env) (c_legs props) (c_marketData props) viewRange))"
  by (simp add: chartData_def chartPoints_def Let_def)

theorem C7_sampler_degenerate_inputs_witness:
  "c_legs emptyProps = []
   \<and> chartData sampleKernel sampleEnv emptyProps 20 0 = []
   \<and> structureStatus closedProps = Some Closed
   \<and> c_realizedPnl closedProps = Some (- 241 / 2)
   \<and> chartData sampleKernel sampleEnv closedProps 20 0 =
        map (\<lambda>s. \<lparr> cp_spot = s, pnlExpiry = - 241 / 2, pnlSim = - 241 / 2 \<rparr>)
            (chartPoints (baseRoundoff sampleEnv) [legClosed] sampleMarket 20)
   \<and> chartPoints (baseRoundoff sampleEnv) [legClosed] sampleMarket 20 \<noteq> []"
proof -
  have r0: "baseRoundoff sampleEnv 0 = 0" by (simp add: sampleEnv_def)
  have ne: "chartPoints (baseRoundoff sampleEnv) [legClosed] sampleMarket 20 \<noteq> []"
    using chartPoints_nonempty [of "[legClosed]" 20 "baseRoundoff sampleEnv" sampleMarket] r0
    by simp
  have h: "c_legs emptyProps = []" "structureStatus closedProps = Some Closed"
    "c_realizedPnl closedProps = Some (- 241 / 2)" "c_legs closedProps = [legClosed]"
    "c_marketData closedProps = sampleMarket"
    by (simp_all add: emptyProps_def closedProps_def)
  show ?thesis
    using C7_sampler_degenerate_inputs [of emptyProps sampleKernel sampleEnv 20 0 "- 241 / 2"]
      C7_sampler_degenerate_inputs [of closedProps sampleKernel sampleEnv 20 0 "- 241 / 2"]
      ne h
    by simp
qed

section \<open>C8: the order of the closed structures\<close>

lemma sample_serials:
  "getSerial ''Alpha 2'' = 2" "getSerial ''Beta 1'' = 1" "getSerial ''Gamma'' = - 1"
  "getSerial ''Delta'' = - 1" "getSerial ''Strangle 3'' = 3"
  by (simp_all add: getSerial_def isDigit_def parseInt_def)

lemma sample_dates:
  "getEffectiveClosingDate sampleEnv closedAlpha = 1792454400000"
  "getEffectiveClosingDate sampleEnv closedBeta = 1793059200000"
  "getEffectiveClosingDate sampleEnv closedGamma = 1793664000000"
  "getEffectiveClosingDate sampleEnv closedDelta = 1792454400000"
  by (simp_all add: getEffectiveClosingDate_def legClosingDates_def sample_defs)

lemma sample_compare:
  "compareStructures sampleEnv closedAlpha closedBeta = 1"
  "compareStructures sampleEnv closedAlpha closedGamma = - 1209600000"
  "compareStructures sampleEnv closedBeta closedGamma = - 604800000"
  unfolding compareStructures_def sample_dates Let_def
  by (simp_all add: closedAlpha_def closedBeta_def closedGamma_def sample_serials)

text \<open>
  Claim C8 states that the closed structures are ordered by the serial number that ends
  their tag when all of them carry one, and by effective closing date otherwise. The
  comparator decides pair by pair: two structures that both carry a serial are compared by
  serial even when a third structure has none. With tags \<open>Alpha 2\<close>, \<open>Beta 1\<close> and
  \<open>Gamma\<close> closed in that order, not all tags carry a serial, yet \<open>Beta 1\<close> comes first:
  the result is not in closing-date order.
\<close>

theorem C8_mixed_tags_not_date_ordered_counterexample:
  "getSerial (tag closedGamma) = - 1
   \<and> closedStructures [closedAlpha, closedBeta, closedGamma]
       = [closedAlpha, closedBeta, closedGamma]
   \<and> map (getEffectiveClosingDate sampleEnv) [closedAlpha, closedBeta, closedGamma]
       = [1792454400000, 1793059200000, 1793664000000]
   \<and> sortedStructures sampleEnv [closedAlpha, closedBeta, closedGamma]
       = [closedBeta, closedAlpha, closedGamma]
   \<and> map (getEffectiveClosingDate sampleEnv)
         (sortedStructures sampleEnv [closedAlpha, closedBeta, closedGamma])
       = [1793059200000, 1792454400000, 1793664000000]"
proof -
  have c: "closedStructures [closedAlpha, closedBeta, closedGamma]
             = [closedAlpha, closedBeta, closedGamma]"
    by (simp add: closedStructures_def closedAlpha_def closedBeta_def closedGamma_def)
  have s: "sortedStructures sampleEnv [closedAlpha, closedBeta, closedGamma]
             = [closedBeta, closedAlpha, closedGamma]"
    by (simp add: sortedStructures_def c sortBy_def sample_compare)
  have t: "getSerial (tag closedGamma) = - 1"
    by (simp add: closedGamma_def sample_serials)
  show ?thesis by (simp add: c s t sample_dates)
qed

text \<open>
  Claim C8 as amended. The equity analyzer returns a permutation of the Closed structures.
  It is their stable ascending sort by the integer serial that ends the tag when every one
  of them carries such a serial, and their stable ascending sort by effective closing date
  when none of them does. In general two structures are compared by serial when both carry
  one and by effective closing date otherwise. The effective closing date is the latest
  closing date among the structure's legs and, when no leg has one, the structure's own
  closing date (zero when that is missing too).
\<close>

theorem C8_equity_order:
  "mset (sortedStructures env ss) = mset (closedStructures ss)
   \<and> ((\<forall>s \<in> set (closedStructures ss). getSerial (tag s) \<noteq> - 1) \<longrightarrow>
        sortedStructures env ss = sort_key (\<lambda>s. getSerial (tag s)) (closedStructures ss))
   \<and> ((\<forall>s \<in> set (closedStructures ss). getSerial (tag s) = - 1) \<longrightarrow>
        sortedStructures env ss = sort_key (getEffectiveClosingDate env) (closedStructures ss))
   \<and> compareStructures env a b =
        (if getSerial (tag a) \<noteq> - 1 \<and> getSerial (tag b) \<noteq> - 1
         then getSerial (tag a) - getSerial (tag b)
         else getEffectiveClosingDate env a - getEffectiveClosingDate env b)
   \<and> getEffectiveClosingDate env a =
        (if legClosingDates env a \<noteq> [] then Max (set (legClosingDates env a))
         else case structClosingDate a of
                None \<Rightarrow> 0
              | Some d \<Rightarrow> if d \<noteq> [] then getTime env d else 0)"
proof -
  have 1: "sortedStructures env ss = sort_key (\<lambda>s. getSerial (tag s)) (closedStructures ss)"
    if "\<forall>s \<in> set (closedStructures ss). getSerial (tag s) \<noteq> - 1"
    unfolding sortedStructures_def
    by (rule sortBy_sort_key) (use that in \<open>simp add: compareStructures_def Let_def\<close>)
  have 2: "sortedStructures env ss = sort_key (getEffectiveClosingDate env) (closedStructures ss)"
    if "\<forall>s \<in> set (closedStructures ss). getSerial (tag s) = - 1"
    unfolding sortedStructures_def
    by (rule sortBy_sort_key) (use that in \<open>simp add: compareStructures_def Let_def\<close>)
  have 3: "mset (sortedStructures env ss) = mset (closedStructures ss)"
    by (simp add: sortedStructures_def mset_sortBy)
  show ?thesis
    using 1 2 3 by (simp add: compareStructures_def Let_def getEffectiveClosingDate_def)
qed

theorem C8_equity_order_witness:
  "closedStructures [closedAlpha, sampleActive, closedBeta] = [closedAlpha, closedBeta]
   \<and> getSerial (tag closedAlpha) \<noteq> - 1 \<and> getSerial (tag closedBeta) \<noteq> - 1
   \<and> sortedStructures sampleEnv [closedAlpha, sampleActive, closedBeta]
       = [closedBeta, closedAlpha]
   \<and> closedStructures [closedGamma, closedDelta] = [closedGamma, closedDelta]
   \<and> getSerial (tag closedGamma) = - 1 \<and> getSerial (tag closedDelta) = - 1
   \<and> sortedStructures sampleEnv [closedGamma, closedDelta] = [closedDelta, closedGamma]
   \<and> getEffectiveClosingDate sampleEnv closedDelta = 1792454400000"
proof -
  have c1: "closedStructures [closedAlpha, sampleActive, closedBeta] = [closedAlpha, closedBeta]"
    and c2: "closedStructures [closedGamma, closedDelta] = [closedGamma, closedDelta]"
    by (simp_all add: closedStructures_def sample_defs)
  have t: "getSerial (tag closedAlpha) = 2" "getSerial (tag closedBeta) = 1"
    "getSerial (tag closedGamma) = - 1" "getSerial (tag closedDelta) = - 1"
    by (simp_all add: closedAlpha_def closedBeta_def closedGamma_def closedDelta_def sample_serials)
  show ?thesis
    using C8_equity_order [of sampleEnv "[closedAlpha, sampleActive, closedBeta]"
            closedAlpha closedBeta, unfolded c1]
          C8_equity_order [of sampleEnv "[closedGamma, closedDelta]" closedDelta closedGamma,
            unfolded c2]
    by (simp add: c1 c2 t sample_dates)
qed

section \<open>C9: equity and drawdown\<close>

lemma walk_length: "length (equityWalk env cap cum pts ss) = length pts + length ss"
  by (induction ss arbitrary: cum pts) (simp_all add: Let_def)

lemma walk_prefix: "take (length pts) (equityWalk env cap cum pts ss) = pts"
proof (induction ss arbitrary: cum pts)
  case Nil
  show ?case by simp
next
  case (Cons s ss)
  let ?np = "\<lparr> e_tag = tag s, equity = cap + (cum + orZero (realizedPnl s)),
               drawdown = cap + (cum + orZero (realizedPnl s))
                 - Max (set (cap # map equity pts @ [cap + (cum + orZero (realizedPnl s))])),
               e_date = getEffectiveClosingDate env s \<rparr>"
  have "take (length (pts @ [?np]))
          (equityWalk env cap (cum + orZero (realizedPnl s)) (pts @ [?np]) ss) = pts @ [?np]"
    by (rule Cons.IH)
  then have "take (length pts) (take (length (pts @ [?np]))
          (equityWalk env cap (cum + orZero (realizedPnl s)) (pts @ [?np]) ss)) = pts"
    by simp
  then show ?case by (simp add: Let_def min_def)
qed

lemma walk_drawdown:
  assumes "\<forall>i < length pts. drawdown (pts ! i) = equity (pts ! i) - Max (set (cap # map equity (take (Suc i) pts)))"
  shows "\<forall>i < length (equityWalk env cap cum pts ss).
           drawdown (equityWalk env cap cum pts ss ! i) =
             equity (equityWalk env cap cum pts ss ! i) - Max (set (cap # map equity (take (Suc i) (equityWalk env cap cum pts ss))))"
  using assms
proof (induction ss arbitrary: cum pts)
  case Nil
  then show ?case by simp
next
  case (Cons s ss)
  let ?eq = "cap + (cum + orZero (realizedPnl s))"
  let ?np = "\<lparr> e_tag = tag s, equity = ?eq,
               drawdown = ?eq - Max (set (cap # map equity pts @ [?eq])),
               e_date = getEffectiveClosingDate env s \<rparr>"
  have "\<forall>i < length (pts @ [?np]). drawdown ((pts @ [?np]) ! i) = equity ((pts @ [?np]) ! i) - Max (set (cap # map equity (take (Suc i) (pts @ [?np]))))"
  proof (intro allI impI)
    fix i assume i: "i < length (pts @ [?np])"
    show "drawdown ((pts @ [?np]) ! i) = equity ((pts @ [?np]) ! i) - Max (set (cap # map equity (take (Suc i) (pts @ [?np]))))"
    proof (cases "i < length pts")
      case True
      with Cons.prems have "drawdown (pts ! i) = equity (pts ! i) - Max (set (cap # map equity (take (Suc i) pts)))" by blast
      with True show ?thesis by (simp add: nth_append)
    next
      case False
      with i have "i = length pts" by simp
      then show ?thesis by simp
    qed
  qed
  from Cons.IH [OF this] show ?case by (simp add: Let_def)
qed

lemma walk_equity_step:
  assumes "pts \<noteq> []" "equity (last pts) = cap + cum"
  shows "\<forall>i < length ss.
           equity (equityWalk env cap cum pts ss ! (length pts + i)) =
           equity (equityWalk env cap cum pts ss ! (length pts + i - 1))
             + orZero (realizedPnl (ss ! i))"
  using assms
proof (induction ss arbitrary: cum pts)
  case Nil
  show ?case by simp
next
  case (Cons s ss)
  let ?eq = "cap + (cum + orZero (realizedPnl s))"
  let ?np = "\<lparr> e_tag = tag s, equity = ?eq,
               drawdown = ?eq - Max (set (cap # map equity pts @ [?eq])),
               e_date = getEffectiveClosingDate env s \<rparr>"
  let ?w = "equityWalk env cap (cum + orZero (realizedPnl s)) (pts @ [?np]) ss"
  have w: "equityWalk env cap cum pts (s # ss) = ?w" by (simp add: Let_def)
  have pre: "take (length (pts @ [?np])) ?w = pts @ [?np]" by (rule walk_prefix)
  have len: "length ?w = length pts + 1 + length ss" by (simp add: walk_length)
  have at: "?w ! j = (pts @ [?np]) ! j" if "j < length pts + 1" for j
  proof -
    have "?w ! j = take (length (pts @ [?np])) ?w ! j" using that by simp
    then show ?thesis unfolding pre .
  qed
  have ih: "\<forall>i < length ss.
           equity (?w ! (length (pts @ [?np]) + i)) =
           equity (?w ! (length (pts @ [?np]) + i - 1)) + orZero (realizedPnl (ss ! i))"
    by (rule Cons.IH) simp_all
  show ?case
  proof (intro allI impI)
    fix i assume i: "i < length (s # ss)"
    show "equity (equityWalk env cap cum pts (s # ss) ! (length pts + i)) =
           equity (equityWalk env cap cum pts (s # ss) ! (length pts + i - 1))
             + orZero (realizedPnl ((s # ss) ! i))"
    proof (cases i)
      case 0
      have a: "?w ! length pts = ?np" using at [of "length pts"] by simp
      have b: "?w ! (length pts - 1) = last pts"
        using at [of "length pts - 1"] Cons.prems(1)
        by (simp add: nth_append last_conv_nth)
      show ?thesis unfolding w using 0 a b Cons.prems(2) by simp
    next
      case (Suc k)
      with i have k: "k < length ss" by simp
      from ih k have "equity (?w ! (length (pts @ [?np]) + k)) =
           equity (?w ! (length (pts @ [?np]) + k - 1)) + orZero (realizedPnl (ss ! k))"
        by blast
      then show ?thesis unfolding w using Suc by simp
    qed
  qed
qed


lemma equityChartData_drawdown:
  "\<forall>i < length (equityChartData env cap ss).
     drawdown (equityChartData env cap ss ! i) =
       equity (equityChartData env cap ss ! i)
       - Max (set (cap # map equity (take (Suc i) (equityChartData env cap ss))))"
proof (cases "closedStructures ss = []")
  case True
  then show ?thesis by (simp add: equityChartData_def)
next
  case False
  have "\<forall>i < length [startPoint cap]. drawdown ([startPoint cap] ! i) =
          equity ([startPoint cap] ! i)
          - Max (set (cap # map equity (take (Suc i) [startPoint cap])))"
    by (simp add: startPoint_def)
  from walk_drawdown [OF this] False show ?thesis by (simp add: equityChartData_def)
qed

lemma equityChartData_nonpositive:
  assumes "p \<in> set (equityChartData env cap ss)"
  shows "drawdown p \<le> 0"
proof -
  let ?d = "equityChartData env cap ss"
  from assms obtain i where i: "i < length ?d" and p: "p = ?d ! i"
    by (auto simp add: in_set_conv_nth)
  have "equity (?d ! i) \<in> set (cap # map equity (take (Suc i) ?d))"
    using i by (simp add: take_Suc_conv_app_nth)
  then have "equity (?d ! i) \<le> Max (set (cap # map equity (take (Suc i) ?d)))"
    by (intro Max_ge) simp_all
  with equityChartData_drawdown [of env cap ss] i p show ?thesis by simp
qed

text \<open>
  Claim C9. The equity series starts at the initial capital and adds each ordered Closed
  structure's \<open>realizedPnl\<close> in turn; every emitted drawdown is the point's equity minus
  the largest equity seen up to and including that point (the starting capital included)
  and is at most 0; \<open>maxDrawdown\<close> is the least drawdown of the series, and is 0 when the
  series has fewer than two points.
\<close>

theorem C9_drawdown:
  "(\<forall>p \<in> set (equityChartData env cap ss). drawdown p \<le> 0)
   \<and> (\<forall>i < length (equityChartData env cap ss).
        drawdown (equityChartData env cap ss ! i) =
          equity (equityChartData env cap ss ! i)
          - Max (set (cap # map equity (take (Suc i) (equityChartData env cap ss)))))
   \<and> (closedStructures ss \<noteq> [] \<longrightarrow>
        length (equityChartData env cap ss) = Suc (length (closedStructures ss))
        \<and> equity (equityChartData env cap ss ! 0) = cap
        \<and> (\<forall>i < length (sortedStructures env ss).
             equity (equityChartData env cap ss ! Suc i) =
               equity (equityChartData env cap ss ! i)
               + orZero (realizedPnl (sortedStructures env ss ! i))))
   \<and> (1 < length (equityChartData env cap ss) \<longrightarrow>
        maxDrawdown (equityChartData env cap ss)
          = Min (set (map drawdown (equityChartData env cap ss))))
   \<and> (length (equityChartData env cap ss) < 2 \<longrightarrow>
        maxDrawdown (equityChartData env cap ss) = 0)"
proof -
  let ?d = "equityChartData env cap ss"
  have np: "\<forall>p \<in> set ?d. drawdown p \<le> 0"
    using equityChartData_nonpositive by blast
  have walk: "length ?d = Suc (length (closedStructures ss))
        \<and> equity (?d ! 0) = cap
        \<and> (\<forall>i < length (sortedStructures env ss).
             equity (?d ! Suc i) = equity (?d ! i)
               + orZero (realizedPnl (sortedStructures env ss ! i)))"
    if ne: "closedStructures ss \<noteq> []"
  proof -
    have d: "?d = equityWalk env cap 0 [startPoint cap] (sortedStructures env ss)"
      using ne by (simp add: equityChartData_def)
    have len: "length ?d = Suc (length (closedStructures ss))"
      unfolding d by (simp add: walk_length sortedStructures_def length_sortBy)
    have "take (length [startPoint cap]) ?d = [startPoint cap]"
      unfolding d by (rule walk_prefix)
    then have "take 1 ?d ! 0 = startPoint cap" by simp
    then have e0: "equity (?d ! 0) = cap" by (simp add: startPoint_def)
    have "\<forall>i < length (sortedStructures env ss).
           equity (?d ! (length [startPoint cap] + i)) =
           equity (?d ! (length [startPoint cap] + i - 1))
             + orZero (realizedPnl (sortedStructures env ss ! i))"
      unfolding d by (rule walk_equity_step) (simp_all add: startPoint_def)
    then show ?thesis using len e0 by simp
  qed
  have md: "maxDrawdown ?d = Min (set (map drawdown ?d))" if l: "1 < length ?d"
  proof -
    define S where "S = set (map drawdown ?d)"
    have fin: "finite S" and ne: "S \<noteq> {}" using l by (auto simp add: S_def)
    have "Min S \<in> S" by (rule Min_in [OF fin ne])
    then have le: "Min S \<le> 0" using np by (auto simp add: S_def)
    have "Min (insert 0 S) = min 0 (Min S)" by (rule Min_insert [OF fin ne])
    with le have "Min (insert 0 S) = Min S" by (simp add: min_def)
    moreover have "maxDrawdown ?d = Min (insert 0 S)"
      using l by (simp add: maxDrawdown_def S_def)
    ultimately show ?thesis by (simp add: S_def)
  qed
  have z: "maxDrawdown ?d = 0" if "length ?d < 2"
    using that by (simp add: maxDrawdown_def)
  show ?thesis
    using np equityChartData_drawdown [of env cap ss] walk md z by blast
qed

theorem C9_drawdown_witness:
  "closedStructures [sampleActive, sampleClosed] \<noteq> []
   \<and> 1 < length (equityChartData sampleEnv 10000 [sampleActive, sampleClosed])
   \<and> map equity (equityChartData sampleEnv 10000 [sampleActive, sampleClosed])
       = [10000, 19759 / 2]
   \<and> map drawdown (equityChartData sampleEnv 10000 [sampleActive, sampleClosed])
       = [0, - 241 / 2]
   \<and> maxDrawdown (equityChartData sampleEnv 10000 [sampleActive, sampleClosed]) = - 241 / 2
   \<and> length (equityChartData sampleEnv 10000 [sampleActive]) < 2
   \<and> maxDrawdown (equityChartData sampleEnv 10000 [sampleActive]) = 0"
proof -
  have c: "closedStructures [sampleActive, sampleClosed] = [sampleClosed]"
    "closedStructures [sampleActive] = []"
    by (simp_all add: closedStructures_def sampleActive_def sampleClosed_def)
  have s: "sortedStructures sampleEnv [sampleActive, sampleClosed] = [sampleClosed]"
    by (simp add: sortedStructures_def c sortBy_def)
  have v: "tag sampleClosed = ''Strangle 3''" "realizedPnl sampleClosed = Some (- 241 / 2)"
    by (simp_all add: sampleClosed_def)
  have d: "equityChartData sampleEnv 10000 [sampleActive, sampleClosed] =
      [startPoint 10000,
       \<lparr> e_tag = ''Strangle 3'', equity = 19759 / 2, drawdown = - 241 / 2,
         e_date = getEffectiveClosingDate sampleEnv sampleClosed \<rparr>]"
    by (simp add: equityChartData_def c s Let_def startPoint_def v orZero_def)
  have e: "equityChartData sampleEnv 10000 [sampleActive] = []"
    by (simp add: equityChartData_def c)
  show ?thesis
    using C9_drawdown [of sampleEnv 10000 "[sampleActive, sampleClosed]"]
          C9_drawdown [of sampleEnv 10000 "[sampleActive]"]
    by (simp add: c d e startPoint_def maxDrawdown_def)
qed

section \<open>C10: the detail view's delta against the list view's\<close>

text \<open>
  Claim C10 states that, for the same structure and market snapshot, the detail view's
  total delta is exactly 100 times the list view's. In live mode the detail view prices a
  leg with the store's live volatility \<open>currentIv\<close> where the list view uses the leg's own
  \<open>impliedVolatility\<close>: with the sample kernel, whose delta depends on volatility as any
  pricing kernel's does, the two totals are 106 and 104.
\<close>

theorem C10_detail_delta_counterexample:
  "t_delta (totals sampleKernel sampleEnv sampleLive) = 106
   \<and> 100 * delta (calculateTotalGreeks sampleKernel sampleEnv (localStructure sampleLive)
                    (marketData sampleLive)) = 104
   \<and> t_delta (totals sampleKernel sampleEnv sampleLive)
       \<noteq> 100 * delta (calculateTotalGreeks sampleKernel sampleEnv (localStructure sampleLive)
                        (marketData sampleLive))"
proof -
  have d: "distinct (map legId (legs (localStructure sampleLive)))"
    by (simp add: sample_defs)
  have 1: "t_delta (totals sampleKernel sampleEnv sampleLive) =
       (\<Sum>l \<leftarrow> filter (\<lambda>l. \<not> (isDisabled l \<or> isLegClosed l)) (legs (localStructure sampleLive)).
           a_delta (fst (legAnalysisOf sampleKernel sampleEnv sampleLive l)))"
    by (rule totals_field [OF d, where P = a_isClosed])
       (simp_all add: totalsStep_fields zeroTotals_def analysis_closed)
  have 2: "t_delta (totals sampleKernel sampleEnv sampleLive) = 106"
    unfolding 1
    by (simp add: sample_defs isDisabled_def isLegClosed_def legAnalysisOf_def detailArgs_def
          volatilityToUse_def storeLegOf_def bsGreeks_def Let_def)
  have 3: "100 * delta (calculateTotalGreeks sampleKernel sampleEnv (localStructure sampleLive)
                    (marketData sampleLive)) = 104"
    unfolding calculateTotalGreeks_sum
    by (simp add: sample_defs isDisabled_def isLegClosed_def listArgs_def bsGreeks_def)
  show ?thesis using 2 3 by simp
qed

text \<open>
  Claim C10 as amended. When the detail view is evaluated at the market's spot and prices
  every leg with the leg's own implied volatility (live mode off, or no live volatility in
  the store), and the leg ids are pairwise different, its total delta is 100 times the
  list view's total delta (in exact arithmetic).
\<close>

theorem C10_detail_delta_is_100_times_list_delta:
  assumes d: "distinct (map legId (legs (localStructure st)))"
    and spot: "simulatedSpot st = daxSpot (marketData st)"
    and vol: "\<forall>l \<in> set (legs (localStructure st)). volatilityToUse st l = impliedVolatility l"
  shows "t_delta (totals K env st) =
           100 * delta (calculateTotalGreeks K env (localStructure st) (marketData st))"
proof -
  have args: "detailArgs env st l = listArgs env (marketData st) l"
    if "l \<in> set (legs (localStructure st))" for l
    using that spot vol by (simp add: detailArgs_def listArgs_def)
  have 1: "t_delta (totals K env st) =
       (\<Sum>l \<leftarrow> filter (\<lambda>l. \<not> (isDisabled l \<or> isLegClosed l)) (legs (localStructure st)).
           a_delta (fst (legAnalysisOf K env st l)))"
    by (rule totals_field [OF d, where P = a_isClosed])
       (simp_all add: totalsStep_fields zeroTotals_def analysis_closed)
  have 2: "(\<Sum>l \<leftarrow> filter (\<lambda>l. \<not> (isDisabled l \<or> isLegClosed l)) (legs (localStructure st)).
           a_delta (fst (legAnalysisOf K env st l)))
     = (\<Sum>l \<leftarrow> filter (\<lambda>l. \<not> (isDisabled l \<or> isLegClosed l)) (legs (localStructure st)).
           100 * (delta (bsGreeks K (optionType l) (listArgs env (marketData st) l)) * quantity l))"
    by (rule sum_list_filter_cong) (simp add: legAnalysisOf_def Let_def args)
  show ?thesis
    unfolding 1 2 calculateTotalGreeks_sum by (simp add: sum_list_const_mult)
qed

theorem C10_detail_delta_is_100_times_list_delta_witness:
  "distinct (map legId (legs (localStructure sampleDetail)))
   \<and> simulatedSpot sampleDetail = daxSpot (marketData sampleDetail)
   \<and> legs (localStructure sampleDetail) = [legOpen, legClosed, legOff]
   \<and> volatilityToUse sampleDetail legOpen = impliedVolatility legOpen
   \<and> volatilityToUse sampleDetail legClosed = impliedVolatility legClosed
   \<and> volatilityToUse sampleDetail legOff = impliedVolatility legOff
   \<and> t_delta (totals sampleKernel sampleEnv sampleDetail) = 104
   \<and> delta (calculateTotalGreeks sampleKernel sampleEnv (localStructure sampleDetail)
              (marketData sampleDetail)) = 26 / 25"
proof -
  have d: "distinct (map legId (legs (localStructure sampleDetail)))"
    by (simp add: sample_defs)
  have s: "simulatedSpot sampleDetail = daxSpot (marketData sampleDetail)"
    by (simp add: sample_defs)
  have v: "\<forall>l \<in> set (legs (localStructure sampleDetail)).
         volatilityToUse sampleDetail l = impliedVolatility l"
    by (simp add: sample_defs volatilityToUse_def storeLegOf_def)
  have g: "delta (calculateTotalGreeks sampleKernel sampleEnv (localStructure sampleDetail)
              (marketData sampleDetail)) = 26 / 25"
    unfolding calculateTotalGreeks_sum
    by (simp add: sample_defs isDisabled_def isLegClosed_def listArgs_def bsGreeks_def)
  have ls: "legs (localStructure sampleDetail) = [legOpen, legClosed, legOff]"
    by (simp add: sample_defs)
  show ?thesis
    using C10_detail_delta_is_100_times_list_delta [OF d s v, of sampleKernel sampleEnv] d s v g
    by (simp add: ls)
qed

end
